theory Spec2Isabelle
  imports Main
begin

section \<open>Values, exceptions and documents\<close>

text \<open>
  The task manager is a FastAPI application over two MongoDB collections, \<open>db.users\<close>
  and \<open>db.tasks\<close>. Its handlers live in \<open>app/main.py\<close>, its pydantic models in
  \<open>app/models.py\<close>. This theory embeds the handlers as functions on an explicit
  database state; every \<open>raise\<close> is a value \<open>Inl e\<close> of the result.

  A \<open>datetime\<close> is an abstract point in time. An ObjectId is identified with the
  24 lower-case hexadecimal digits that \<open>str\<close> prints for it.
\<close>

type_synonym datetime = int
type_synonym oid = string

datatype bson = BNull | BStr string | BBool bool | BDate datetime | BOid oid

type_synonym doc = "string \<rightharpoonup> bson"

text \<open>
  The exceptions that the handlers and the libraries under them raise. FastAPI's
  \<open>HTTPException\<close> is a subclass of Python's \<open>Exception\<close>, as the others are, so
  all of them are values of one type. \<open>Str e\<close> stands for the text \<open>str(e)\<close>.
\<close>

datatype exc =
    HTTPException nat detail
  | InvalidId string
  | DuplicateKeyError
  | ValueError
  | TypeError
  | RequestValidationError
  | ResponseValidationError
and detail = Detail string | Str exc

text \<open>
  \<open>ObjectId(task_id)\<close> accepts a string of 24 hexadecimal digits, in either case,
  and raises \<open>InvalidId\<close> on any other string.
\<close>

definition is_hex :: "char \<Rightarrow> bool" where
  "is_hex c = (c \<in> set ''0123456789abcdefABCDEF'')"

definition lower_hex :: "char \<Rightarrow> char" where
  "lower_hex c =
     (if c = CHR ''A'' then CHR ''a'' else if c = CHR ''B'' then CHR ''b''
      else if c = CHR ''C'' then CHR ''c'' else if c = CHR ''D'' then CHR ''d''
      else if c = CHR ''E'' then CHR ''e'' else if c = CHR ''F'' then CHR ''f''
      else c)"

definition ObjectId :: "string \<Rightarrow> exc + oid" where
  "ObjectId s =
     (if length s = 24 \<and> list_all is_hex s then Inr (map lower_hex s)
      else Inl (InvalidId s))"

text \<open>
  A document of \<open>db.users\<close> is the dictionary literal \<open>user_dict\<close> of
  \<open>register_user\<close>, the only place that writes the collection: a fixed set of keys.
\<close>

record user_doc =
  u_id :: oid
  u_username :: string
  u_firstName :: string
  u_lastName :: string
  u_email :: string
  u_phoneNumber :: string
  u_hashed_password :: string
  u_created_at :: datetime

text \<open>
  A document of \<open>db.tasks\<close> is \<open>task.dict()\<close> with keys added, and \<open>$set\<close> adds and
  replaces keys later: its \<open>_id\<close>, always an ObjectId, and a dictionary of all the
  other keys. A key can be absent, which is not the same as holding null.
\<close>

record task_doc =
  t_id :: oid
  t_fields :: doc

record database =
  db_users :: "user_doc list"
  db_tasks :: "task_doc list"

definition user_as_doc :: "user_doc \<Rightarrow> doc" where
  "user_as_doc u =
     [''_id'' \<mapsto> BOid (u_id u), ''username'' \<mapsto> BStr (u_username u),
      ''firstName'' \<mapsto> BStr (u_firstName u), ''lastName'' \<mapsto> BStr (u_lastName u),
      ''email'' \<mapsto> BStr (u_email u), ''phoneNumber'' \<mapsto> BStr (u_phoneNumber u),
      ''hashed_password'' \<mapsto> BStr (u_hashed_password u),
      ''created_at'' \<mapsto> BDate (u_created_at u)]"

definition task_as_doc :: "task_doc \<Rightarrow> doc" where
  "task_as_doc t = (t_fields t)(''_id'' \<mapsto> BOid (t_id t))"

section \<open>The document store\<close>

text \<open>
  A query document is a list of \<open>key: value\<close> conditions, all of which must hold, or
  an \<open>$or\<close> of such lists. MongoDB's equality condition \<open>{k: v}\<close> holds of a document
  whose key \<open>k\<close> holds \<open>v\<close>; a document without the key satisfies it only for
  \<open>v = null\<close>.
\<close>

datatype query = Fields "(string \<times> bson) list" | Or "(string \<times> bson) list list"

fun field_matches :: "doc \<Rightarrow> string \<times> bson \<Rightarrow> bool" where
  "field_matches d (k, v) = (case d k of None \<Rightarrow> v = BNull | Some w \<Rightarrow> w = v)"

fun matches :: "query \<Rightarrow> doc \<Rightarrow> bool" where
  "matches (Fields kvs) d = list_all (field_matches d) kvs"
| "matches (Or qs) d = list_ex (list_all (field_matches d)) qs"

text \<open>
  A collection is the list of its documents in natural order; an insert appends.
  \<open>find_one\<close> returns the first match, \<open>find\<close> all matches in order.
\<close>

definition find_one :: "('a \<Rightarrow> doc) \<Rightarrow> query \<Rightarrow> 'a list \<Rightarrow> 'a option" where
  "find_one view q c = List.find (\<lambda>x. matches q (view x)) c"

definition find_docs :: "query \<Rightarrow> task_doc list \<Rightarrow> task_doc list" where
  "find_docs q c = filter (\<lambda>t. matches q (task_as_doc t)) c"

definition count_documents :: "query \<Rightarrow> task_doc list \<Rightarrow> nat" where
  "count_documents q c = length (find_docs q c)"

text \<open>
  The driver's cursor: \<open>skip\<close> raises \<open>ValueError\<close> on a negative number; \<open>limit\<close>
  takes 0 as no limit and a negative number as its absolute value (which the server
  answers in one batch; the theorems on the window of a list take the limit
  non-negative). The numbers are Python's integers; those that the driver cannot
  encode in 64 bits are outside the model.
\<close>

definition cursor_skip :: "int \<Rightarrow> 'a list \<Rightarrow> exc + 'a list" where
  "cursor_skip n c = (if n < 0 then Inl ValueError else Inr (drop (nat n) c))"

definition cursor_limit :: "int \<Rightarrow> 'a list \<Rightarrow> 'a list" where
  "cursor_limit n c = (if n = 0 then c else take (nat \<bar>n\<bar>) c)"

text \<open>
  \<open>_id\<close> is unique in every collection, and \<open>create_indexes\<close> makes \<open>email\<close>
  unique in \<open>db.users\<close>: an insert that would break either raises
  \<open>DuplicateKeyError\<close>.
\<close>

definition insert_user :: "user_doc \<Rightarrow> user_doc list \<Rightarrow> exc + user_doc list" where
  "insert_user u c =
     (if u_id u \<in> set (map u_id c) \<or> u_email u \<in> set (map u_email c)
      then Inl DuplicateKeyError else Inr (c @ [u]))"

definition insert_task :: "task_doc \<Rightarrow> task_doc list \<Rightarrow> exc + task_doc list" where
  "insert_task t c =
     (if t_id t \<in> set (map t_id c) then Inl DuplicateKeyError else Inr (c @ [t]))"

text \<open>\<open>update_one(q, {"$set": upd})\<close> and \<open>delete_one(q)\<close> act on the first match.\<close>

fun update_one :: "query \<Rightarrow> doc \<Rightarrow> task_doc list \<Rightarrow> task_doc list" where
  "update_one q upd [] = []"
| "update_one q upd (t # ts) =
     (if matches q (task_as_doc t) then t\<lparr>t_fields := t_fields t ++ upd\<rparr> # ts
      else t # update_one q upd ts)"

fun delete_one :: "query \<Rightarrow> task_doc list \<Rightarrow> task_doc list" where
  "delete_one q [] = []"
| "delete_one q (t # ts) =
     (if matches q (task_as_doc t) then ts else t # delete_one q ts)"

section \<open>The pydantic models\<close>

text \<open>
  A model of \<open>models.py\<close> is the list of its fields. A field without a default is
  required; \<open>Optional[T] = d\<close> accepts a value of \<open>T\<close> or null and defaults to \<open>d\<close>;
  \<open>T = d\<close> defaults to \<open>d\<close> and does not accept null. \<open>EmailStr\<close> is taken as a
  string. A JSON value that pydantic reads as the datetime \<open>d\<close> is written
  \<open>BDate d\<close>.
\<close>

datatype ftype = TStr | TBool | TDatetime

datatype fspec = Required ftype | Optional ftype bson | Default ftype bson

type_synonym model = "(string \<times> fspec) list"

definition Token :: model where
  "Token = [(''access_token'', Required TStr), (''token_type'', Required TStr)]"

definition UserBase :: model where
  "UserBase = [(''email'', Required TStr)]"

definition User :: model where
  "User = UserBase @ [(''id'', Required TStr), (''created_at'', Required TDatetime)]"

definition TaskBase :: model where
  "TaskBase =
     [(''title'', Required TStr),
      (''description'', Optional TStr BNull),
      (''category'', Optional TStr BNull),
      (''priority'', Optional TStr (BStr ''medium'')),
      (''due_date'', Optional TDatetime BNull)]"

definition TaskCreate :: model where
  "TaskCreate = TaskBase"

definition TaskUpdate :: model where
  "TaskUpdate = TaskBase @ [(''completed'', Optional TBool BNull)]"

definition Task :: model where
  "Task = TaskBase @
     [(''id'', Required TStr),
      (''user_id'', Required TStr),
      (''completed'', Default TBool (BBool False)),
      (''created_at'', Required TDatetime),
      (''updated_at'', Optional TDatetime BNull)]"

record UserCreate =
  username :: string
  firstName :: string
  lastName :: string
  email :: string
  phoneNumber :: string
  password :: string

fun has_type :: "ftype \<Rightarrow> bson \<Rightarrow> bool" where
  "has_type TStr (BStr s) = True"
| "has_type TBool (BBool b) = True"
| "has_type TDatetime (BDate d) = True"
| "has_type t v = False"

fun validate_field :: "doc \<Rightarrow> fspec \<Rightarrow> string \<Rightarrow> bson option" where
  "validate_field d (Required t) k =
     (case d k of None \<Rightarrow> None | Some v \<Rightarrow> if has_type t v then Some v else None)"
| "validate_field d (Optional t dflt) k =
     (case d k of None \<Rightarrow> Some dflt
      | Some v \<Rightarrow> if v = BNull \<or> has_type t v then Some v else None)"
| "validate_field d (Default t dflt) k =
     (case d k of None \<Rightarrow> Some dflt
      | Some v \<Rightarrow> if has_type t v then Some v else None)"

text \<open>
  Validation reads the model's fields from the input, fills the defaults, ignores
  every other key, and fails when a field is missing or has the wrong type.
\<close>

fun validate :: "model \<Rightarrow> doc \<Rightarrow> doc option" where
  "validate [] d = Some Map.empty"
| "validate ((k, f) # fs) d =
     (case validate_field d f k of
        None \<Rightarrow> None
      | Some v \<Rightarrow> (case validate fs d of None \<Rightarrow> None | Some m \<Rightarrow> Some (m(k \<mapsto> v))))"

text \<open>
  An instance built from a request body keeps the validated values and the set of
  fields that the body supplied: \<open>.dict()\<close> gives all values,
  \<open>.dict(exclude_unset=True)\<close> only those of the supplied fields.
\<close>

record model_instance =
  m_values :: doc
  m_fields_set :: "string \<Rightarrow> bool"

definition parse_body :: "model \<Rightarrow> doc \<Rightarrow> exc + model_instance" where
  "parse_body m body =
     (case validate m body of
        None \<Rightarrow> Inl RequestValidationError
      | Some vs \<Rightarrow> Inr \<lparr>m_values = vs, m_fields_set = (\<lambda>k. body k \<noteq> None)\<rparr>)"

definition dict :: "model_instance \<Rightarrow> doc" where
  "dict i = m_values i"

definition dict_exclude_unset :: "model_instance \<Rightarrow> doc" where
  "dict_exclude_unset i = (\<lambda>k. if m_fields_set i k then m_values i k else None)"

text \<open>\<open>response_model=M\<close>: the handler's result is validated against \<open>M\<close>.\<close>

definition response_model :: "model \<Rightarrow> (exc + doc) \<times> 's \<Rightarrow> (exc + doc) \<times> 's" where
  "response_model m r =
     (case r of
        (Inl e, s) \<Rightarrow> (Inl e, s)
      | (Inr d, s) \<Rightarrow>
          (case validate m d of
             None \<Rightarrow> (Inl ResponseValidationError, s)
           | Some body \<Rightarrow> (Inr body, s)))"

text \<open>
  The status of a response: 200 for a result, the status of an \<open>HTTPException\<close>,
  422 for a request body that fails validation, 500 for any other exception.
\<close>

fun status_code :: "exc + 'a \<Rightarrow> nat" where
  "status_code (Inr v) = 200"
| "status_code (Inl (HTTPException c d)) = c"
| "status_code (Inl RequestValidationError) = 422"
| "status_code (Inl e) = 500"

section \<open>The handlers of main.py\<close>

text \<open>
  Every handler body is wrapped in \<open>try: ... except Exception as e: raise
  HTTPException(status_code=500, detail=str(e))\<close>. The handler catches whatever the
  body raises, an \<open>HTTPException\<close> of the body included. What the body wrote to
  the database before it raised stays written.
\<close>

definition except_Exception :: "(exc + 'a) \<times> 's \<Rightarrow> (exc + 'a) \<times> 's" where
  "except_Exception r =
     (case r of
        (Inl e, s) \<Rightarrow> (Inl (HTTPException 500 (Str e)), s)
      | (Inr v, s) \<Rightarrow> (Inr v, s))"

text \<open>
  The functions that \<open>main.py\<close> imports from \<open>auth\<close> are parameters of the
  handlers that call them: \<open>get_password_hash\<close>, \<open>verify_password\<close> and
  \<open>create_access_token\<close>; the user document that \<open>get_current_user\<close> resolves
  is the parameter \<open>current_user\<close>. \<open>now\<close> is the value of
  \<open>datetime.utcnow()\<close> and \<open>new_oid\<close> that of \<open>ObjectId()\<close>.
\<close>

text \<open>The dictionary \<open>user_dict\<close> that \<open>register_user\<close> writes to \<open>db.users\<close>.\<close>

definition registered ::
  "(string \<Rightarrow> string) \<Rightarrow> UserCreate \<Rightarrow> datetime \<Rightarrow> oid \<Rightarrow> user_doc" where
  "registered get_password_hash user now new_oid =
     \<lparr>u_id = new_oid,
      u_username = username user,
      u_firstName = firstName user,
      u_lastName = lastName user,
      u_email = email user,
      u_phoneNumber = phoneNumber user,
      u_hashed_password = get_password_hash (password user),
      u_created_at = now\<rparr>"

definition register_user ::
  "(string \<Rightarrow> string) \<Rightarrow> UserCreate \<Rightarrow> datetime \<Rightarrow> oid \<Rightarrow> database
     \<Rightarrow> (exc + doc) \<times> database" where
  "register_user get_password_hash user now new_oid db = except_Exception
     (case find_one user_as_doc (Fields [(''email'', BStr (email user))]) (db_users db) of
        Some u \<Rightarrow> (Inl (HTTPException 400 (Detail ''Email already registered'')), db)
      | None \<Rightarrow>
          (let user_dict = registered get_password_hash user now new_oid
           in case insert_user user_dict (db_users db) of
                Inl e \<Rightarrow> (Inl e, db)
              | Inr users' \<Rightarrow>
                  (Inr [''id'' \<mapsto> BStr (u_id user_dict),
                        ''username'' \<mapsto> BStr (u_username user_dict),
                        ''firstName'' \<mapsto> BStr (u_firstName user_dict),
                        ''lastName'' \<mapsto> BStr (u_lastName user_dict),
                        ''email'' \<mapsto> BStr (u_email user_dict),
                        ''phoneNumber'' \<mapsto> BStr (u_phoneNumber user_dict),
                        ''created_at'' \<mapsto> BDate (u_created_at user_dict)],
                   db\<lparr>db_users := users'\<rparr>)))"

text \<open>
  \<open>credentials\<close> is the JSON object of the request; \<open>credentials.get(k)\<close> is null
  for an absent key.
\<close>

definition dict_get :: "doc \<Rightarrow> string \<Rightarrow> bson" where
  "dict_get d k = (case d k of None \<Rightarrow> BNull | Some v \<Rightarrow> v)"

definition login ::
  "(bson \<Rightarrow> string \<Rightarrow> bool) \<Rightarrow> ((string \<times> bson) list \<Rightarrow> string) \<Rightarrow> doc \<Rightarrow> database
     \<Rightarrow> (exc + doc) \<times> database" where
  "login verify_password create_access_token credentials db = except_Exception
     (let emailOrUsername = dict_get credentials ''emailOrUsername'';
          pw = dict_get credentials ''password''
      in case find_one user_as_doc
                (Or [[(''email'', emailOrUsername)], [(''username'', emailOrUsername)]])
                (db_users db) of
           None \<Rightarrow>
             (Inl (HTTPException 401 (Detail ''Incorrect email/username or password'')), db)
         | Some db_user \<Rightarrow>
             if \<not> verify_password pw (u_hashed_password db_user)
             then (Inl (HTTPException 401
                          (Detail ''Incorrect email/username or password'')), db)
             else (Inr [''access_token'' \<mapsto>
                          BStr (create_access_token [(''sub'', BStr (u_email db_user))]),
                        ''token_type'' \<mapsto> BStr ''bearer''], db))"

text \<open>\<open>d["id"] = str(d.pop("_id"))\<close> on a document read from \<open>db.tasks\<close>.\<close>

definition pop_id :: "task_doc \<Rightarrow> doc" where
  "pop_id t = (t_fields t)(''id'' \<mapsto> BStr (t_id t))"

text \<open>
  The dictionary \<open>task_dict\<close> that \<open>create_task\<close> writes to \<open>db.tasks\<close>:
  \<open>task.dict()\<close> with \<open>user_id\<close>, \<open>created_at\<close> and \<open>_id\<close>.
\<close>

definition created :: "model_instance \<Rightarrow> user_doc \<Rightarrow> datetime \<Rightarrow> oid \<Rightarrow> task_doc" where
  "created task current_user now new_oid =
     \<lparr>t_id = new_oid,
      t_fields = (dict task)(''user_id'' \<mapsto> BStr (u_id current_user),
                             ''created_at'' \<mapsto> BDate now)\<rparr>"

definition create_task ::
  "model_instance \<Rightarrow> user_doc \<Rightarrow> datetime \<Rightarrow> oid \<Rightarrow> database \<Rightarrow> (exc + doc) \<times> database" where
  "create_task task current_user now new_oid db = except_Exception
     (let task_dict = created task current_user now new_oid
      in case insert_task task_dict (db_tasks db) of
           Inl e \<Rightarrow> (Inl e, db)
         | Inr tasks' \<Rightarrow>
             (case find_one task_as_doc (Fields [(''_id'', BOid (t_id task_dict))]) tasks' of
                None \<Rightarrow> (Inl TypeError, db\<lparr>db_tasks := tasks'\<rparr>)
              | Some created_task \<Rightarrow> (Inr (pop_id created_task), db\<lparr>db_tasks := tasks'\<rparr>)))"

definition update_task ::
  "string \<Rightarrow> model_instance \<Rightarrow> user_doc \<Rightarrow> datetime \<Rightarrow> database \<Rightarrow> (exc + doc) \<times> database" where
  "update_task task_id task_update current_user now db = except_Exception
     (case ObjectId task_id of
        Inl e \<Rightarrow> (Inl e, db)
      | Inr task_oid \<Rightarrow>
          (case find_one task_as_doc
                  (Fields [(''_id'', BOid task_oid), (''user_id'', BStr (u_id current_user))])
                  (db_tasks db) of
             None \<Rightarrow> (Inl (HTTPException 404 (Detail ''Task not found'')), db)
           | Some task \<Rightarrow>
               (let update_data = (dict_exclude_unset task_update)(''updated_at'' \<mapsto> BDate now);
                    tasks' = update_one (Fields [(''_id'', BOid task_oid)]) update_data
                               (db_tasks db)
                in case find_one task_as_doc (Fields [(''_id'', BOid task_oid)]) tasks' of
                     None \<Rightarrow> (Inl TypeError, db\<lparr>db_tasks := tasks'\<rparr>)
                   | Some updated_task \<Rightarrow>
                       (Inr (pop_id updated_task), db\<lparr>db_tasks := tasks'\<rparr>))))"

definition delete_task ::
  "string \<Rightarrow> user_doc \<Rightarrow> database \<Rightarrow> (exc + doc) \<times> database" where
  "delete_task task_id current_user db = except_Exception
     (case ObjectId task_id of
        Inl e \<Rightarrow> (Inl e, db)
      | Inr task_oid \<Rightarrow>
          (case find_one task_as_doc
                  (Fields [(''_id'', BOid task_oid), (''user_id'', BStr (u_id current_user))])
                  (db_tasks db) of
             None \<Rightarrow> (Inl (HTTPException 404 (Detail ''Task not found'')), db)
           | Some task \<Rightarrow>
               (Inr [''message'' \<mapsto> BStr ''Task deleted successfully''],
                db\<lparr>db_tasks := delete_one (Fields [(''_id'', BOid task_oid)]) (db_tasks db)\<rparr>)))"

text \<open>
  The query of \<open>get_tasks\<close>: \<open>if category:\<close> adds the condition for a string that
  is neither absent nor empty, \<open>if completed is not None:\<close> for either boolean.
\<close>

definition if_truthy :: "string \<Rightarrow> string option \<Rightarrow> (string \<times> bson) list" where
  "if_truthy k v = (case v of None \<Rightarrow> [] | Some s \<Rightarrow> if s = [] then [] else [(k, BStr s)])"

definition if_not_None :: "string \<Rightarrow> bool option \<Rightarrow> (string \<times> bson) list" where
  "if_not_None k v = (case v of None \<Rightarrow> [] | Some b \<Rightarrow> [(k, BBool b)])"

definition tasks_query ::
  "user_doc \<Rightarrow> string option \<Rightarrow> string option \<Rightarrow> bool option \<Rightarrow> string option
     \<Rightarrow> (string \<times> bson) list" where
  "tasks_query current_user category priority completed due_date =
     [(''user_id'', BStr (u_id current_user))]
       @ if_truthy ''category'' category
       @ if_truthy ''priority'' priority
       @ if_not_None ''completed'' completed
       @ if_truthy ''due_date'' due_date"

record task_page =
  r_tasks :: "doc list"
  r_total :: nat
  r_page :: int
  r_limit :: int

definition get_tasks ::
  "user_doc \<Rightarrow> int \<Rightarrow> int \<Rightarrow> string option \<Rightarrow> string option \<Rightarrow> bool option
     \<Rightarrow> string option \<Rightarrow> database \<Rightarrow> (exc + task_page) \<times> database" where
  "get_tasks current_user page limit category priority completed due_date db =
   except_Exception
     (let skip = (page - 1) * limit;
          query = Fields (tasks_query current_user category priority completed due_date);
          total = count_documents query (db_tasks db)
      in case cursor_skip skip (find_docs query (db_tasks db)) of
           Inl e \<Rightarrow> (Inl e, db)
         | Inr skipped \<Rightarrow>
             (Inr \<lparr>r_tasks = map pop_id (cursor_limit limit skipped),
                   r_total = total, r_page = page, r_limit = limit\<rparr>, db))"

section \<open>The endpoints\<close>

text \<open>
  FastAPI validates the request body against the model of the handler's parameter
  before the handler runs, and the handler's result against \<open>response_model\<close>
  after it.
\<close>

definition post_api_auth_register ::
  "(string \<Rightarrow> string) \<Rightarrow> UserCreate \<Rightarrow> datetime \<Rightarrow> oid \<Rightarrow> database
     \<Rightarrow> (exc + doc) \<times> database" where
  "post_api_auth_register get_password_hash user now new_oid db =
     response_model User (register_user get_password_hash user now new_oid db)"

definition post_api_auth_login ::
  "(bson \<Rightarrow> string \<Rightarrow> bool) \<Rightarrow> ((string \<times> bson) list \<Rightarrow> string) \<Rightarrow> doc \<Rightarrow> database
     \<Rightarrow> (exc + doc) \<times> database" where
  "post_api_auth_login verify_password create_access_token credentials db =
     response_model Token (login verify_password create_access_token credentials db)"

definition post_api_tasks ::
  "doc \<Rightarrow> user_doc \<Rightarrow> datetime \<Rightarrow> oid \<Rightarrow> database \<Rightarrow> (exc + doc) \<times> database" where
  "post_api_tasks body current_user now new_oid db =
     (case parse_body TaskCreate body of
        Inl e \<Rightarrow> (Inl e, db)
      | Inr task \<Rightarrow> response_model Task (create_task task current_user now new_oid db))"

definition put_api_tasks ::
  "string \<Rightarrow> doc \<Rightarrow> user_doc \<Rightarrow> datetime \<Rightarrow> database \<Rightarrow> (exc + doc) \<times> database" where
  "put_api_tasks task_id body current_user now db =
     (case parse_body TaskUpdate body of
        Inl e \<Rightarrow> (Inl e, db)
      | Inr task_update \<Rightarrow>
          response_model Task (update_task task_id task_update current_user now db))"

section \<open>Notions of the specification\<close>

text \<open>
  The tasks of a user, in the order of the collection, and the documents on a
  page that \<open>get_tasks\<close> returned.
\<close>

definition owned_tasks :: "user_doc \<Rightarrow> database \<Rightarrow> task_doc list" where
  "owned_tasks current_user db =
     filter (\<lambda>t. t_fields t ''user_id'' = Some (BStr (u_id current_user))) (db_tasks db)"

definition page_tasks :: "(exc + task_page) \<times> database \<Rightarrow> doc list" where
  "page_tasks r = (case fst r of Inl e \<Rightarrow> [] | Inr p \<Rightarrow> r_tasks p)"

text \<open>
  The tasks that a list selects by \<open>category\<close>, \<open>priority\<close> and
  \<open>completed\<close>, in the words of the specification: the owner is the caller, and
  each of these filters that is supplied and not empty equals the stored value of
  its key.
\<close>

definition exact_match ::
  "user_doc \<Rightarrow> string option \<Rightarrow> string option \<Rightarrow> bool option \<Rightarrow> task_doc \<Rightarrow> bool" where
  "exact_match current_user category priority completed t \<longleftrightarrow>
     t_fields t ''user_id'' = Some (BStr (u_id current_user))
     \<and> (case category of None \<Rightarrow> True
         | Some c \<Rightarrow> c = [] \<or> t_fields t ''category'' = Some (BStr c))
     \<and> (case priority of None \<Rightarrow> True
         | Some p \<Rightarrow> p = [] \<or> t_fields t ''priority'' = Some (BStr p))
     \<and> (case completed of None \<Rightarrow> True
         | Some b \<Rightarrow> t_fields t ''completed'' = Some (BBool b))"

text \<open>
  The fields of a task after an update, in the words of the specification: the
  fields of \<open>TaskUpdate\<close> that the body supplies take the supplied values,
  \<open>updated_at\<close> is now, every other field keeps its value.
\<close>

definition updated_fields :: "doc \<Rightarrow> doc \<Rightarrow> datetime \<Rightarrow> doc" where
  "updated_fields old body now =
     (\<lambda>k. if k = ''updated_at'' then Some (BDate now)
          else if k \<in> set (map fst TaskUpdate) \<and> body k \<noteq> None then body k
          else old k)"

text \<open>A document after \<open>$set\<close>.\<close>

definition updated :: "task_doc \<Rightarrow> doc \<Rightarrow> task_doc" where
  "updated t upd = t\<lparr>t_fields := t_fields t ++ upd\<rparr>"

section \<open>Example data\<close>

text \<open>
  Two registered users, a task that Alice created from the body
  \<open>{"title": "Buy milk"}\<close>, and a database holding them. The example password
  hasher is the identity, and the example token is its subject.
\<close>

definition alice :: user_doc where
  "alice = \<lparr>u_id = ''0123456789abcdef01234567'', u_username = ''sam'',
     u_firstName = ''Alice'', u_lastName = ''Liddell'', u_email = ''alice@example.com'',
     u_phoneNumber = ''100'', u_hashed_password = ''wonder'', u_created_at = 1\<rparr>"

definition bob :: user_doc where
  "bob = \<lparr>u_id = ''89abcdef0123456789abcdef'', u_username = ''sam'',
     u_firstName = ''Bob'', u_lastName = ''Builder'', u_email = ''bob@example.com'',
     u_phoneNumber = ''200'', u_hashed_password = ''fixit'', u_created_at = 2\<rparr>"

definition milk_id :: oid where
  "milk_id = ''aaaaaaaaaaaaaaaaaaaaaaaa''"

definition milk :: task_doc where
  "milk = \<lparr>t_id = milk_id,
     t_fields = [''title'' \<mapsto> BStr ''Buy milk'', ''description'' \<mapsto> BNull,
       ''category'' \<mapsto> BNull, ''priority'' \<mapsto> BStr ''medium'', ''due_date'' \<mapsto> BNull,
       ''user_id'' \<mapsto> BStr (u_id alice), ''created_at'' \<mapsto> BDate 5]\<rparr>"

definition example_db :: database where
  "example_db = \<lparr>db_users = [alice, bob], db_tasks = [milk]\<rparr>"

text \<open>The instance that request validation builds from the body \<open>{"title": s}\<close>.\<close>

definition title_only :: "string \<Rightarrow> model_instance" where
  "title_only s = \<lparr>m_values = [''due_date'' \<mapsto> BNull, ''priority'' \<mapsto> BStr ''medium'',
        ''category'' \<mapsto> BNull, ''description'' \<mapsto> BNull, ''title'' \<mapsto> BStr s],
      m_fields_set = (\<lambda>k. [''title'' \<mapsto> BStr s] k \<noteq> None)\<rparr>"

definition retitle :: model_instance where
  "retitle = \<lparr>m_values = [''title'' \<mapsto> BStr ''Buy oat milk'', ''description'' \<mapsto> BNull,
       ''category'' \<mapsto> BNull, ''priority'' \<mapsto> BStr ''medium'', ''due_date'' \<mapsto> BNull,
       ''completed'' \<mapsto> BNull],
     m_fields_set = (\<lambda>k. k = ''title'')\<rparr>"

text \<open>The registration requests of Alice and Bob, who chose the same username.\<close>

definition alice_create :: UserCreate where
  "alice_create = \<lparr>username = ''sam'', firstName = ''Alice'', lastName = ''Liddell'',
     email = ''alice@example.com'', phoneNumber = ''100'', password = ''wonder''\<rparr>"

definition bob_create :: UserCreate where
  "bob_create = \<lparr>username = ''sam'', firstName = ''Bob'', lastName = ''Builder'',
     email = ''bob@example.com'', phoneNumber = ''200'', password = ''fixit''\<rparr>"

definition empty_db :: database where
  "empty_db = \<lparr>db_users = [], db_tasks = []\<rparr>"

text \<open>More tasks: two of Alice, one of them updated since, and one of Bob.\<close>

definition report :: task_doc where
  "report = \<lparr>t_id = ''bbbbbbbbbbbbbbbbbbbbbbbb'',
     t_fields = [''title'' \<mapsto> BStr ''Write report'', ''description'' \<mapsto> BNull,
       ''category'' \<mapsto> BStr ''work'', ''priority'' \<mapsto> BStr ''high'',
       ''due_date'' \<mapsto> BDate 100, ''user_id'' \<mapsto> BStr (u_id alice),
       ''created_at'' \<mapsto> BDate 6, ''completed'' \<mapsto> BBool True,
       ''updated_at'' \<mapsto> BDate 8]\<rparr>"

definition bread :: task_doc where
  "bread = \<lparr>t_id = ''cccccccccccccccccccccccc'',
     t_fields = [''title'' \<mapsto> BStr ''Buy bread'', ''description'' \<mapsto> BNull,
       ''category'' \<mapsto> BNull, ''priority'' \<mapsto> BStr ''medium'', ''due_date'' \<mapsto> BNull,
       ''user_id'' \<mapsto> BStr (u_id bob), ''created_at'' \<mapsto> BDate 7]\<rparr>"

definition call :: task_doc where
  "call = \<lparr>t_id = ''dddddddddddddddddddddddd'',
     t_fields = [''title'' \<mapsto> BStr ''Call home'', ''description'' \<mapsto> BNull,
       ''category'' \<mapsto> BStr ''home'', ''priority'' \<mapsto> BStr ''medium'',
       ''due_date'' \<mapsto> BNull, ''user_id'' \<mapsto> BStr (u_id alice),
       ''created_at'' \<mapsto> BDate 8]\<rparr>"

definition busy_db :: database where
  "busy_db = \<lparr>db_users = [alice, bob], db_tasks = [milk, report, bread, call]\<rparr>"

definition plain_verify :: "bson \<Rightarrow> string \<Rightarrow> bool" where
  "plain_verify pw h = (pw = BStr h)"

definition subject_token :: "(string \<times> bson) list \<Rightarrow> string" where
  "subject_token claims = (case map_of claims ''sub'' of Some (BStr s) \<Rightarrow> s | _ \<Rightarrow> [])"

section \<open>Queries and the store\<close>

lemma matches_id_owner:
  "matches (Fields [(''_id'', BOid i), (''user_id'', BStr uid)]) (task_as_doc t)
     \<longleftrightarrow> t_id t = i \<and> t_fields t ''user_id'' = Some (BStr uid)"
  by (auto simp: task_as_doc_def split: option.splits)

lemma matches_id:
  "matches (Fields [(''_id'', BOid i)]) (task_as_doc t) \<longleftrightarrow> t_id t = i"
  by (auto simp: task_as_doc_def)

lemma find_one_None:
  "find_one view q c = None \<longleftrightarrow> (\<forall>x\<in>set c. \<not> matches q (view x))"
  by (auto simp: find_one_def find_None_iff)

lemma find_one_Some:
  "find_one view q c = Some x \<Longrightarrow> x \<in> set c \<and> matches q (view x)"
  by (auto simp: find_one_def find_Some_iff)

lemma not_owned_not_found:
  assumes "\<forall>t\<in>set (db_tasks db). ObjectId task_id = Inr (t_id t)
             \<longrightarrow> t_fields t ''user_id'' \<noteq> Some (BStr (u_id current_user))"
    and "ObjectId task_id = Inr task_oid"
  shows "find_one task_as_doc
           (Fields [(''_id'', BOid task_oid), (''user_id'', BStr (u_id current_user))])
           (db_tasks db) = None"
  using assms unfolding find_one_None matches_id_owner by auto

section \<open>Missing and foreign tasks\<close>

text \<open>
  C2. The claim: deleting or updating a task id that does not exist, or that another
  user owns, answers NotFound with status 404 and never a server fault, for any task
  id string. The code raises the 404 inside its own \<open>try\<close>, whose
  \<open>except Exception\<close> catches it and raises status 500 in its place; an id that is
  not an ObjectId ends the same way through \<open>InvalidId\<close>. So for every task id
  that names no task of the caller, both handlers answer 500 and leave the database
  as it was.
\<close>

theorem not_found_is_500:
  assumes "\<forall>t\<in>set (db_tasks db). ObjectId task_id = Inr (t_id t)
             \<longrightarrow> t_fields t ''user_id'' \<noteq> Some (BStr (u_id current_user))"
  shows "delete_task task_id current_user db =
           (Inl (HTTPException 500 (Str (case ObjectId task_id of
                   Inl e \<Rightarrow> e
                 | Inr task_oid \<Rightarrow> HTTPException 404 (Detail ''Task not found'')))), db)
       \<and> update_task task_id task_update current_user now db =
           (Inl (HTTPException 500 (Str (case ObjectId task_id of
                   Inl e \<Rightarrow> e
                 | Inr task_oid \<Rightarrow> HTTPException 404 (Detail ''Task not found'')))), db)
       \<and> status_code (fst (delete_task task_id current_user db)) = 500
       \<and> status_code (fst (update_task task_id task_update current_user now db)) = 500"
proof (cases "ObjectId task_id")
  case (Inl e)
  then show ?thesis
    by (simp add: delete_task_def update_task_def except_Exception_def)
next
  case (Inr task_oid)
  from not_owned_not_found [OF assms Inr] Inr show ?thesis
    by (simp add: delete_task_def update_task_def except_Exception_def)
qed

theorem not_found_is_500_witness:
  "milk \<in> set (db_tasks example_db)
   \<and> t_fields milk ''user_id'' = Some (BStr (u_id alice))
   \<and> delete_task milk_id bob example_db =
       (Inl (HTTPException 500 (Str (HTTPException 404 (Detail ''Task not found'')))),
        example_db)
   \<and> status_code (fst (delete_task milk_id bob example_db)) = 500
   \<and> status_code (fst (update_task milk_id retitle bob 9 example_db)) = 500"
proof -
  have h: "\<forall>t\<in>set (db_tasks example_db). ObjectId milk_id = Inr (t_id t)
             \<longrightarrow> t_fields t ''user_id'' \<noteq> Some (BStr (u_id bob))"
    by (simp add: example_db_def milk_def alice_def bob_def)
  have i: "ObjectId milk_id = Inr milk_id"
    by (simp add: ObjectId_def milk_id_def is_hex_def lower_hex_def)
  from not_found_is_500 [OF h, of retitle 9] i show ?thesis
    by (simp add: example_db_def milk_def)
qed

section \<open>Ownership isolation\<close>

lemma same_id_same_task:
  "distinct (map t_id c) \<Longrightarrow> x \<in> set c \<Longrightarrow> y \<in> set c \<Longrightarrow> t_id x = t_id y \<Longrightarrow> x = y"
  by (meson distinct_map inj_on_eq_iff)

lemma matches_tasks_query_owner:
  "matches (Fields (tasks_query current_user category priority completed due_date))
     (task_as_doc t)
     \<Longrightarrow> t_fields t ''user_id'' = Some (BStr (u_id current_user))"
  by (simp add: tasks_query_def task_as_doc_def split: option.splits)

lemma set_cursor_limit: "set (cursor_limit n c) \<subseteq> set c"
  by (auto simp: cursor_limit_def dest: in_set_takeD)

lemma set_cursor_skip: "cursor_skip n c = Inr c' \<Longrightarrow> set c' \<subseteq> set c"
  by (auto simp: cursor_skip_def split: if_splits dest: in_set_dropD)

lemma get_tasks_db:
  "snd (get_tasks current_user page limit category priority completed due_date db) = db"
  by (simp add: get_tasks_def except_Exception_def Let_def split: sum.splits)

lemma get_tasks_Inr:
  assumes "fst (get_tasks current_user page limit category priority completed due_date db)
             = Inr p"
  shows "\<exists>skipped. cursor_skip ((page - 1) * limit)
            (find_docs (Fields (tasks_query current_user category priority completed due_date))
               (db_tasks db)) = Inr skipped
          \<and> r_tasks p = map pop_id (cursor_limit limit skipped)
          \<and> r_total p = count_documents
               (Fields (tasks_query current_user category priority completed due_date))
               (db_tasks db)"
  using assms
  by (cases "cursor_skip ((page - 1) * limit)
            (find_docs (Fields (tasks_query current_user category priority completed due_date))
               (db_tasks db))")
     (auto simp: get_tasks_def except_Exception_def Let_def)

lemma get_tasks_listed:
  assumes "fst (get_tasks current_user page limit category priority completed due_date db)
             = Inr p"
    and "d \<in> set (r_tasks p)"
  shows "\<exists>t\<in>set (db_tasks db). d = pop_id t
           \<and> matches (Fields (tasks_query current_user category priority completed due_date))
                (task_as_doc t)"
proof -
  let ?q = "Fields (tasks_query current_user category priority completed due_date)"
  from get_tasks_Inr [OF assms(1)] obtain skipped where
    s: "cursor_skip ((page - 1) * limit) (find_docs ?q (db_tasks db)) = Inr skipped"
    and p: "r_tasks p = map pop_id (cursor_limit limit skipped)"
    by blast
  from assms(2) p have "d \<in> pop_id ` set (cursor_limit limit skipped)"
    by simp
  then obtain t where t: "t \<in> set (cursor_limit limit skipped)" "d = pop_id t"
    by (rule imageE)
  from t(1) have "t \<in> set skipped"
    by (rule subsetD [OF set_cursor_limit])
  then have "t \<in> set (find_docs ?q (db_tasks db))"
    by (rule subsetD [OF set_cursor_skip [OF s]])
  then have "t \<in> set (db_tasks db)" "matches ?q (task_as_doc t)"
    by (simp_all add: find_docs_def)
  with t(2) show ?thesis
    by blast
qed

text \<open>
  C1. The claim: a task that user A created is never listed, changed or removed by
  an operation under the identity of another user B, even with the task's exact id;
  update and delete report NotFound and the list omits the task. On the code the
  isolation holds: update and delete leave the database as it was and no listed
  document carries the task's id. But what update and delete report is not
  NotFound: the 404 they raise is caught by their own \<open>except Exception\<close> and
  replaced by status 500. \<open>_id\<close> is unique in the collection, as the store
  guarantees.
\<close>

theorem ownership_isolation:
  assumes "distinct (map t_id (db_tasks db))"
    and "t \<in> set (db_tasks db)"
    and "t_fields t ''user_id'' = Some (BStr (u_id a))"
    and "u_id b \<noteq> u_id a"
    and "ObjectId task_id = Inr (t_id t)"
  shows "update_task task_id task_update b now db =
           (Inl (HTTPException 500 (Str (HTTPException 404 (Detail ''Task not found'')))), db)
       \<and> delete_task task_id b db =
           (Inl (HTTPException 500 (Str (HTTPException 404 (Detail ''Task not found'')))), db)
       \<and> snd (get_tasks b page limit category priority completed due_date db) = db
       \<and> (\<forall>p. fst (get_tasks b page limit category priority completed due_date db) = Inr p
            \<longrightarrow> (\<forall>d\<in>set (r_tasks p). d ''id'' \<noteq> Some (BStr (t_id t))))"
proof -
  have foreign: "\<forall>x\<in>set (db_tasks db). ObjectId task_id = Inr (t_id x)
                   \<longrightarrow> t_fields x ''user_id'' \<noteq> Some (BStr (u_id b))"
  proof (intro ballI impI)
    fix x assume x: "x \<in> set (db_tasks db)" "ObjectId task_id = Inr (t_id x)"
    with assms(5) have "t_id x = t_id t" by simp
    with same_id_same_task [OF assms(1) x(1) assms(2)] have "x = t" by simp
    with assms(3,4) show "t_fields x ''user_id'' \<noteq> Some (BStr (u_id b))" by simp
  qed
  from not_owned_not_found [OF foreign assms(5)] assms(5)
  have upd: "update_task task_id task_update b now db =
           (Inl (HTTPException 500 (Str (HTTPException 404 (Detail ''Task not found'')))), db)"
    and del: "delete_task task_id b db =
           (Inl (HTTPException 500 (Str (HTTPException 404 (Detail ''Task not found'')))), db)"
    by (simp_all add: delete_task_def update_task_def except_Exception_def)
  have lst: "d ''id'' \<noteq> Some (BStr (t_id t))"
    if p: "fst (get_tasks b page limit category priority completed due_date db) = Inr p"
      and d: "d \<in> set (r_tasks p)" for p d
  proof
    assume same: "d ''id'' = Some (BStr (t_id t))"
    from get_tasks_listed [OF p d] obtain x where
      x: "x \<in> set (db_tasks db)" "d = pop_id x"
        "matches (Fields (tasks_query b category priority completed due_date)) (task_as_doc x)"
      by blast
    from same x(2) have "t_id x = t_id t" by (simp add: pop_id_def)
    with same_id_same_task [OF assms(1) x(1) assms(2)] have "x = t" by simp
    with matches_tasks_query_owner [OF x(3)] assms(3,4) show False by simp
  qed
  show ?thesis
  proof (intro conjI allI impI ballI)
    show "update_task task_id task_update b now db =
           (Inl (HTTPException 500 (Str (HTTPException 404 (Detail ''Task not found'')))), db)"
      by (rule upd)
    show "delete_task task_id b db =
           (Inl (HTTPException 500 (Str (HTTPException 404 (Detail ''Task not found'')))), db)"
      by (rule del)
    show "snd (get_tasks b page limit category priority completed due_date db) = db"
      by (rule get_tasks_db)
  next
    fix p d
    assume "fst (get_tasks b page limit category priority completed due_date db) = Inr p"
      and "d \<in> set (r_tasks p)"
    then show "d ''id'' \<noteq> Some (BStr (t_id t))" by (rule lst)
  qed
qed

theorem ownership_isolation_witness:
  "update_task milk_id retitle bob 9 example_db =
     (Inl (HTTPException 500 (Str (HTTPException 404 (Detail ''Task not found'')))),
      example_db)
   \<and> delete_task milk_id bob example_db =
     (Inl (HTTPException 500 (Str (HTTPException 404 (Detail ''Task not found'')))),
      example_db)
   \<and> snd (get_tasks bob 1 10 None None None None example_db) = example_db
   \<and> fst (get_tasks bob 1 10 None None None None example_db)
       = Inr \<lparr>r_tasks = [], r_total = 0, r_page = 1, r_limit = 10\<rparr>
   \<and> r_total (projr (fst (get_tasks alice 1 10 None None None None example_db))) = 1"
proof -
  have h1: "distinct (map t_id (db_tasks example_db))"
    and h2: "milk \<in> set (db_tasks example_db)"
    by (simp_all add: example_db_def)
  have h3: "t_fields milk ''user_id'' = Some (BStr (u_id alice))"
    by (simp add: milk_def)
  have h4: "u_id bob \<noteq> u_id alice"
    by (simp add: alice_def bob_def)
  have h5: "ObjectId milk_id = Inr (t_id milk)"
    by (simp add: ObjectId_def milk_id_def milk_def is_hex_def lower_hex_def)
  have l: "fst (get_tasks bob 1 10 None None None None example_db)
             = Inr \<lparr>r_tasks = [], r_total = 0, r_page = 1, r_limit = 10\<rparr>"
    by (simp add: get_tasks_def tasks_query_def if_truthy_def if_not_None_def
        count_documents_def find_docs_def cursor_skip_def cursor_limit_def
        except_Exception_def task_as_doc_def example_db_def milk_def alice_def bob_def)
  have m: "r_total (projr (fst (get_tasks alice 1 10 None None None None example_db))) = 1"
    by (simp add: get_tasks_def tasks_query_def if_truthy_def if_not_None_def
        count_documents_def find_docs_def cursor_skip_def cursor_limit_def
        except_Exception_def task_as_doc_def example_db_def milk_def alice_def)
  from ownership_isolation [OF h1 h2 h3 h4 h5, of retitle 9 1 10 None None None None] l m
  show ?thesis
    by simp
qed

section \<open>Registration\<close>

lemma matches_email:
  "matches (Fields [(''email'', BStr e)]) (user_as_doc u) \<longleftrightarrow> u_email u = e"
  by (simp add: user_as_doc_def)

lemma matches_email_or_username:
  "matches (Or [[(''email'', v)], [(''username'', v)]]) (user_as_doc u)
     \<longleftrightarrow> v = BStr (u_email u) \<or> v = BStr (u_username u)"
  by (auto simp: user_as_doc_def)

lemma find_email_None:
  "e \<notin> set (map u_email c) \<Longrightarrow> find_one user_as_doc (Fields [(''email'', BStr e)]) c = None"
  unfolding find_one_None matches_email by auto

lemma find_email_Some:
  "e \<in> set (map u_email c) \<Longrightarrow> \<exists>u. find_one user_as_doc (Fields [(''email'', BStr e)]) c = Some u"
  using find_one_None [of user_as_doc "Fields [(''email'', BStr e)]" c]
  unfolding matches_email by (cases "find_one user_as_doc (Fields [(''email'', BStr e)]) c") auto

lemma register_user_taken:
  assumes "email user \<in> set (map u_email (db_users db))"
  shows "register_user h user now new_oid db =
     (Inl (HTTPException 500 (Str (HTTPException 400 (Detail ''Email already registered'')))), db)"
proof -
  from find_email_Some [OF assms] obtain u where
    "find_one user_as_doc (Fields [(''email'', BStr (email user))]) (db_users db) = Some u" ..
  then show ?thesis
    by (simp add: register_user_def except_Exception_def)
qed

lemma register_user_fresh:
  assumes "email user \<notin> set (map u_email (db_users db))"
    and "new_oid \<notin> set (map u_id (db_users db))"
  shows "register_user h user now new_oid db =
     (Inr [''id'' \<mapsto> BStr new_oid,
           ''username'' \<mapsto> BStr (username user),
           ''firstName'' \<mapsto> BStr (firstName user),
           ''lastName'' \<mapsto> BStr (lastName user),
           ''email'' \<mapsto> BStr (email user),
           ''phoneNumber'' \<mapsto> BStr (phoneNumber user),
           ''created_at'' \<mapsto> BDate now],
      db\<lparr>db_users := db_users db @ [registered h user now new_oid]\<rparr>)"
  using find_email_None [OF assms(1)] assms
  by (simp add: register_user_def except_Exception_def insert_user_def Let_def
      registered_def)

lemma validate_User_dict:
  "validate User [''id'' \<mapsto> BStr i, ''username'' \<mapsto> BStr n, ''firstName'' \<mapsto> BStr f,
       ''lastName'' \<mapsto> BStr l, ''email'' \<mapsto> BStr e, ''phoneNumber'' \<mapsto> BStr ph,
       ''created_at'' \<mapsto> BDate c]
     = Some [''created_at'' \<mapsto> BDate c, ''id'' \<mapsto> BStr i, ''email'' \<mapsto> BStr e]"
  by (simp add: User_def UserBase_def)

lemma post_register_fresh:
  assumes "email user \<notin> set (map u_email (db_users db))"
    and "new_oid \<notin> set (map u_id (db_users db))"
  shows "post_api_auth_register h user now new_oid db =
     (Inr [''created_at'' \<mapsto> BDate now, ''id'' \<mapsto> BStr new_oid,
           ''email'' \<mapsto> BStr (email user)],
      db\<lparr>db_users := db_users db @ [registered h user now new_oid]\<rparr>)"
  unfolding post_api_auth_register_def register_user_fresh [OF assms]
  by (simp add: response_model_def validate_User_dict)

lemma post_register_taken:
  assumes "email user \<in> set (map u_email (db_users db))"
  shows "post_api_auth_register h user now new_oid db =
     (Inl (HTTPException 500 (Str (HTTPException 400 (Detail ''Email already registered'')))), db)"
  unfolding post_api_auth_register_def register_user_taken [OF assms]
  by (simp add: response_model_def)

text \<open>
  C3. The claim: of two registrations with the same email, the first succeeds with
  status 200 and the second fails with Conflict, status 400. On the code the first
  succeeds, and the second raises the 400 inside the handler's own \<open>try\<close>, whose
  \<open>except Exception\<close> replaces it by status 500. The usernames play no part.
\<close>

theorem register_same_email_twice:
  assumes "email user1 \<notin> set (map u_email (db_users db))"
    and "oid1 \<notin> set (map u_id (db_users db))"
    and "email user2 = email user1"
  shows "status_code (fst (post_api_auth_register h user1 now1 oid1 db)) = 200
       \<and> post_api_auth_register h user2 now2 oid2
           (snd (post_api_auth_register h user1 now1 oid1 db))
         = (Inl (HTTPException 500
                  (Str (HTTPException 400 (Detail ''Email already registered'')))),
            snd (post_api_auth_register h user1 now1 oid1 db))
       \<and> status_code (fst (post_api_auth_register h user2 now2 oid2
           (snd (post_api_auth_register h user1 now1 oid1 db)))) = 500"
proof -
  let ?db1 = "db\<lparr>db_users := db_users db @ [registered h user1 now1 oid1]\<rparr>"
  have first: "post_api_auth_register h user1 now1 oid1 db =
     (Inr [''created_at'' \<mapsto> BDate now1, ''id'' \<mapsto> BStr oid1,
           ''email'' \<mapsto> BStr (email user1)], ?db1)"
    by (rule post_register_fresh [OF assms(1,2)])
  have "email user2 \<in> set (map u_email (db_users ?db1))"
    by (simp add: assms(3) registered_def)
  then have second: "post_api_auth_register h user2 now2 oid2 ?db1 =
     (Inl (HTTPException 500 (Str (HTTPException 400 (Detail ''Email already registered'')))),
      ?db1)"
    by (rule post_register_taken)
  show ?thesis
    unfolding first snd_conv fst_conv second by simp
qed

theorem register_same_email_twice_witness:
  "status_code (fst (post_api_auth_register (\<lambda>p. p) alice_create 1 (u_id alice) empty_db)) = 200
   \<and> snd (post_api_auth_register (\<lambda>p. p) alice_create 1 (u_id alice) empty_db)
       = \<lparr>db_users = [alice], db_tasks = []\<rparr>
   \<and> status_code (fst (post_api_auth_register (\<lambda>p. p)
        (bob_create\<lparr>email := email alice_create\<rparr>) 2 (u_id bob)
        \<lparr>db_users = [alice], db_tasks = []\<rparr>)) = 500"
proof -
  have h1: "email alice_create \<notin> set (map u_email (db_users empty_db))"
    and h2: "u_id alice \<notin> set (map u_id (db_users empty_db))"
    by (simp_all add: empty_db_def)
  have h3: "email (bob_create\<lparr>email := email alice_create\<rparr>) = email alice_create"
    by simp
  have s: "snd (post_api_auth_register (\<lambda>p. p) alice_create 1 (u_id alice) empty_db)
       = \<lparr>db_users = [alice], db_tasks = []\<rparr>"
    unfolding post_register_fresh [OF h1 h2]
    by (simp add: registered_def alice_create_def alice_def empty_db_def)
  from register_same_email_twice [OF h1 h2 h3, of "\<lambda>p. p" 1 2 "u_id bob"] s
  show ?thesis
    by simp
qed

section \<open>The registration response\<close>

text \<open>
  C10. Every successful registration answers with the fields \<open>id\<close>, \<open>email\<close> and
  \<open>created_at\<close> of the new user and no other, although the handler returns a
  dictionary that also holds \<open>username\<close>, \<open>firstName\<close>, \<open>lastName\<close> and
  \<open>phoneNumber\<close>: the response model \<open>User\<close> keeps its own fields only.
\<close>

theorem register_response_fields:
  assumes "post_api_auth_register h user now new_oid db = (Inr body, db')"
  shows "dom body = {''id'', ''email'', ''created_at''}
       \<and> body ''id'' = Some (BStr new_oid)
       \<and> body ''email'' = Some (BStr (email user))
       \<and> body ''created_at'' = Some (BDate now)
       \<and> (\<exists>d. fst (register_user h user now new_oid db) = Inr d
             \<and> dom d = {''id'', ''username'', ''firstName'', ''lastName'', ''email'',
                        ''phoneNumber'', ''created_at''})"
proof (cases "email user \<in> set (map u_email (db_users db))")
  case True
  from post_register_taken [OF True] assms show ?thesis by simp
next
  case fresh: False
  show ?thesis
  proof (cases "new_oid \<in> set (map u_id (db_users db))")
    case True
    with find_email_None [OF fresh] have "register_user h user now new_oid db
        = (Inl (HTTPException 500 (Str DuplicateKeyError)), db)"
      by (simp add: register_user_def except_Exception_def insert_user_def Let_def
          registered_def)
    with assms show ?thesis
      by (simp add: post_api_auth_register_def response_model_def)
  next
    case False
    from post_register_fresh [OF fresh False] assms
    have body: "body = [''created_at'' \<mapsto> BDate now, ''id'' \<mapsto> BStr new_oid,
           ''email'' \<mapsto> BStr (email user)]"
      by simp
    have "dom body = {''id'', ''email'', ''created_at''}"
      unfolding body by auto
    moreover have "body ''id'' = Some (BStr new_oid)" "body ''email'' = Some (BStr (email user))"
      "body ''created_at'' = Some (BDate now)"
      unfolding body by simp_all
    moreover have "\<exists>d. fst (register_user h user now new_oid db) = Inr d
             \<and> dom d = {''id'', ''username'', ''firstName'', ''lastName'', ''email'',
                        ''phoneNumber'', ''created_at''}"
      unfolding register_user_fresh [OF fresh False] fst_conv by auto
    ultimately show ?thesis by blast
  qed
qed

theorem register_response_fields_witness:
  "post_api_auth_register (\<lambda>p. p) alice_create 1 (u_id alice) empty_db
     = (Inr [''created_at'' \<mapsto> BDate 1, ''id'' \<mapsto> BStr (u_id alice),
             ''email'' \<mapsto> BStr ''alice@example.com''],
        \<lparr>db_users = [alice], db_tasks = []\<rparr>)
   \<and> dom [''created_at'' \<mapsto> BDate 1, ''id'' \<mapsto> BStr (u_id alice),
           ''email'' \<mapsto> BStr ''alice@example.com'']
       = {''id'', ''email'', ''created_at''}"
proof -
  have h1: "email alice_create \<notin> set (map u_email (db_users empty_db))"
    and h2: "u_id alice \<notin> set (map u_id (db_users empty_db))"
    by (simp_all add: empty_db_def)
  have r: "post_api_auth_register (\<lambda>p. p) alice_create 1 (u_id alice) empty_db
     = (Inr [''created_at'' \<mapsto> BDate 1, ''id'' \<mapsto> BStr (u_id alice),
             ''email'' \<mapsto> BStr ''alice@example.com''],
        \<lparr>db_users = [alice], db_tasks = []\<rparr>)"
    unfolding post_register_fresh [OF h1 h2]
    by (simp add: registered_def alice_create_def alice_def empty_db_def)
  from register_response_fields [OF r] r show ?thesis
    by simp
qed

section \<open>Login\<close>

lemma login_unfold:
  "login verify_password create_access_token credentials db =
     (case find_one user_as_doc
             (Or [[(''email'', dict_get credentials ''emailOrUsername'')],
                  [(''username'', dict_get credentials ''emailOrUsername'')]])
             (db_users db) of
        None \<Rightarrow> (Inl (HTTPException 500 (Str (HTTPException 401
                   (Detail ''Incorrect email/username or password'')))), db)
      | Some db_user \<Rightarrow>
          if verify_password (dict_get credentials ''password'') (u_hashed_password db_user)
          then (Inr [''access_token'' \<mapsto>
                          BStr (create_access_token [(''sub'', BStr (u_email db_user))]),
                        ''token_type'' \<mapsto> BStr ''bearer''], db)
          else (Inl (HTTPException 500 (Str (HTTPException 401
                   (Detail ''Incorrect email/username or password'')))), db))"
  by (simp add: login_def except_Exception_def Let_def split: option.splits)

text \<open>
  C4. The claim: a login whose identifier matches no user, or whose password fails
  verification against the matched user's hash, fails with Unauthenticated, status
  401, whatever the identifier was. On the code both cases raise the 401 inside the
  handler's own \<open>try\<close>, whose \<open>except Exception\<close> replaces it by status 500.
\<close>

theorem login_failure_is_500:
  assumes "\<forall>u. find_one user_as_doc
             (Or [[(''email'', dict_get credentials ''emailOrUsername'')],
                  [(''username'', dict_get credentials ''emailOrUsername'')]])
             (db_users db) = Some u
           \<longrightarrow> \<not> verify_password (dict_get credentials ''password'') (u_hashed_password u)"
  shows "post_api_auth_login verify_password create_access_token credentials db =
           (Inl (HTTPException 500 (Str (HTTPException 401
                   (Detail ''Incorrect email/username or password'')))), db)
       \<and> status_code (fst (post_api_auth_login verify_password create_access_token
                               credentials db)) = 500"
  using assms
  by (simp add: post_api_auth_login_def login_unfold response_model_def split: option.splits)

theorem login_failure_is_500_witness:
  "post_api_auth_login plain_verify subject_token
     [''emailOrUsername'' \<mapsto> BStr ''bob@example.com'', ''password'' \<mapsto> BStr ''guess'']
     example_db
     = (Inl (HTTPException 500 (Str (HTTPException 401
               (Detail ''Incorrect email/username or password'')))), example_db)
   \<and> status_code (fst (post_api_auth_login plain_verify subject_token
        [''emailOrUsername'' \<mapsto> BStr ''nobody'', ''password'' \<mapsto> BStr ''fixit'']
        example_db)) = 500"
proof -
  let ?c1 = "[''emailOrUsername'' \<mapsto> BStr ''bob@example.com'', ''password'' \<mapsto> BStr ''guess'']"
  let ?c2 = "[''emailOrUsername'' \<mapsto> BStr ''nobody'', ''password'' \<mapsto> BStr ''fixit'']"
  have h1: "\<forall>u. find_one user_as_doc
             (Or [[(''email'', dict_get ?c1 ''emailOrUsername'')],
                  [(''username'', dict_get ?c1 ''emailOrUsername'')]])
             (db_users example_db) = Some u
           \<longrightarrow> \<not> plain_verify (dict_get ?c1 ''password'') (u_hashed_password u)"
    by (simp add: find_one_def dict_get_def user_as_doc_def example_db_def alice_def bob_def
        plain_verify_def)
  have h2: "\<forall>u. find_one user_as_doc
             (Or [[(''email'', dict_get ?c2 ''emailOrUsername'')],
                  [(''username'', dict_get ?c2 ''emailOrUsername'')]])
             (db_users example_db) = Some u
           \<longrightarrow> \<not> plain_verify (dict_get ?c2 ''password'') (u_hashed_password u)"
    by (simp add: find_one_def dict_get_def user_as_doc_def example_db_def alice_def bob_def
        plain_verify_def)
  from login_failure_is_500 [where verify_password = plain_verify and credentials = ?c1
         and db = example_db and create_access_token = subject_token, OF h1]
       login_failure_is_500 [where verify_password = plain_verify and credentials = ?c2
         and db = example_db and create_access_token = subject_token, OF h2]
  show ?thesis
    by simp
qed

lemma find_first_identified:
  assumes "c = before @ u # after"
    and "ident = u_email u \<or> ident = u_username u"
    and "\<forall>x\<in>set before. u_email x \<noteq> ident \<and> u_username x \<noteq> ident"
  shows "find_one user_as_doc (Or [[(''email'', BStr ident)], [(''username'', BStr ident)]]) c
           = Some u"
  unfolding find_one_def find_Some_iff matches_email_or_username
proof (intro exI conjI)
  show "length before < length c" using assms(1) by simp
  show "BStr ident = BStr (u_email (c ! length before)) \<or> BStr ident = BStr (u_username (c ! length before))"
    using assms(1,2) by auto
  show "u = c ! length before" using assms(1) by simp
  show "\<forall>j<length before. \<not> (BStr ident = BStr (u_email (c ! j)) \<or> BStr ident = BStr (u_username (c ! j)))"
    using assms(1,3) by (auto simp: nth_append)
qed

lemma validate_Token_dict:
  "validate Token [''access_token'' \<mapsto> BStr a, ''token_type'' \<mapsto> BStr b]
     = Some [''token_type'' \<mapsto> BStr b, ''access_token'' \<mapsto> BStr a]"
  by (simp add: Token_def)

text \<open>
  C8, as stated, fails. Alice and Bob register with different emails and the same
  username, which nothing forbids. Bob's login with his username and his password
  finds Alice's document first, checks Bob's password against Alice's hash, and
  fails; his login with his email succeeds.
\<close>

theorem login_shared_username_counterexample:
  "snd (post_api_auth_register (\<lambda>p. p) bob_create 2 (u_id bob)
          (snd (post_api_auth_register (\<lambda>p. p) alice_create 1 (u_id alice) empty_db)))
     = \<lparr>db_users = [alice, bob], db_tasks = []\<rparr>
   \<and> plain_verify (BStr (password bob_create)) (u_hashed_password bob)
   \<and> status_code (fst (post_api_auth_login plain_verify subject_token
        [''emailOrUsername'' \<mapsto> BStr (username bob_create),
         ''password'' \<mapsto> BStr (password bob_create)]
        \<lparr>db_users = [alice, bob], db_tasks = []\<rparr>)) = 500
   \<and> status_code (fst (post_api_auth_login plain_verify subject_token
        [''emailOrUsername'' \<mapsto> BStr (email bob_create),
         ''password'' \<mapsto> BStr (password bob_create)]
        \<lparr>db_users = [alice, bob], db_tasks = []\<rparr>)) = 200"
proof -
  have h1: "email alice_create \<notin> set (map u_email (db_users empty_db))"
    and h2: "u_id alice \<notin> set (map u_id (db_users empty_db))"
    by (simp_all add: empty_db_def)
  have s1: "snd (post_api_auth_register (\<lambda>p. p) alice_create 1 (u_id alice) empty_db)
       = \<lparr>db_users = [alice], db_tasks = []\<rparr>"
    unfolding post_register_fresh [OF h1 h2]
    by (simp add: registered_def alice_create_def alice_def empty_db_def)
  have h3: "email bob_create \<notin> set (map u_email (db_users \<lparr>db_users = [alice], db_tasks = []\<rparr>))"
    and h4: "u_id bob \<notin> set (map u_id (db_users \<lparr>db_users = [alice], db_tasks = []\<rparr>))"
    by (simp_all add: alice_def bob_def bob_create_def)
  have s2: "snd (post_api_auth_register (\<lambda>p. p) bob_create 2 (u_id bob)
                  \<lparr>db_users = [alice], db_tasks = []\<rparr>)
       = \<lparr>db_users = [alice, bob], db_tasks = []\<rparr>"
    unfolding post_register_fresh [OF h3 h4]
    by (simp add: registered_def bob_create_def bob_def)
  have v: "plain_verify (BStr (password bob_create)) (u_hashed_password bob)"
    by (simp add: plain_verify_def bob_create_def bob_def)
  have l1: "status_code (fst (post_api_auth_login plain_verify subject_token
        [''emailOrUsername'' \<mapsto> BStr (username bob_create),
         ''password'' \<mapsto> BStr (password bob_create)]
        \<lparr>db_users = [alice, bob], db_tasks = []\<rparr>)) = 500"
    by (simp add: post_api_auth_login_def login_unfold response_model_def find_one_def
        dict_get_def user_as_doc_def alice_def bob_def bob_create_def plain_verify_def)
  have l2: "status_code (fst (post_api_auth_login plain_verify subject_token
        [''emailOrUsername'' \<mapsto> BStr (email bob_create),
         ''password'' \<mapsto> BStr (password bob_create)]
        \<lparr>db_users = [alice, bob], db_tasks = []\<rparr>)) = 200"
    by (simp add: post_api_auth_login_def login_unfold response_model_def find_one_def
        dict_get_def user_as_doc_def alice_def bob_def bob_create_def plain_verify_def
        validate_Token_dict)
  show ?thesis
    unfolding s1 s2 using v l1 l2 by simp
qed

text \<open>
  C8, amended. Let \<open>u\<close> be a registered user and \<open>ident\<close> the email or the
  username of \<open>u\<close>, such that no document stored before that of \<open>u\<close> has
  \<open>ident\<close> as its email or as its username. Then a login with \<open>ident\<close> and a
  password that verifies against the hash of \<open>u\<close> succeeds with status 200, and
  its token is the one created for the subject \<open>u_email u\<close>.
\<close>

theorem login_first_match:
  assumes "db_users db = before @ u # after"
    and "ident = u_email u \<or> ident = u_username u"
    and "\<forall>x\<in>set before. u_email x \<noteq> ident \<and> u_username x \<noteq> ident"
    and "credentials ''emailOrUsername'' = Some (BStr ident)"
    and "verify_password (dict_get credentials ''password'') (u_hashed_password u)"
  shows "login verify_password create_access_token credentials db =
           (Inr [''access_token'' \<mapsto> BStr (create_access_token [(''sub'', BStr (u_email u))]),
                 ''token_type'' \<mapsto> BStr ''bearer''], db)
       \<and> post_api_auth_login verify_password create_access_token credentials db =
           (Inr [''token_type'' \<mapsto> BStr ''bearer'',
                 ''access_token'' \<mapsto> BStr (create_access_token [(''sub'', BStr (u_email u))])],
            db)
       \<and> status_code (fst (post_api_auth_login verify_password create_access_token
                               credentials db)) = 200"
proof -
  from assms(4) have i: "dict_get credentials ''emailOrUsername'' = BStr ident"
    by (simp add: dict_get_def)
  have l: "login verify_password create_access_token credentials db =
           (Inr [''access_token'' \<mapsto> BStr (create_access_token [(''sub'', BStr (u_email u))]),
                 ''token_type'' \<mapsto> BStr ''bearer''], db)"
    unfolding login_unfold i find_first_identified [OF assms(1,2,3)]
    using assms(5) by simp
  show ?thesis
    unfolding post_api_auth_login_def l
    by (simp add: response_model_def validate_Token_dict)
qed

theorem login_first_match_witness:
  "post_api_auth_login plain_verify subject_token
     [''emailOrUsername'' \<mapsto> BStr ''bob@example.com'', ''password'' \<mapsto> BStr ''fixit'']
     example_db
     = (Inr [''token_type'' \<mapsto> BStr ''bearer'', ''access_token'' \<mapsto> BStr ''bob@example.com''],
        example_db)
   \<and> post_api_auth_login plain_verify subject_token
     [''emailOrUsername'' \<mapsto> BStr ''sam'', ''password'' \<mapsto> BStr ''wonder'']
     example_db
     = (Inr [''token_type'' \<mapsto> BStr ''bearer'', ''access_token'' \<mapsto> BStr ''alice@example.com''],
        example_db)"
proof -
  let ?cb = "[''emailOrUsername'' \<mapsto> BStr ''bob@example.com'', ''password'' \<mapsto> BStr ''fixit'']"
  let ?ca = "[''emailOrUsername'' \<mapsto> BStr ''sam'', ''password'' \<mapsto> BStr ''wonder'']"
  have b1: "db_users example_db = [alice] @ bob # []"
    and b2: "''bob@example.com'' = u_email bob \<or> ''bob@example.com'' = u_username bob"
    and b3: "\<forall>x\<in>set [alice]. u_email x \<noteq> ''bob@example.com'' \<and> u_username x \<noteq> ''bob@example.com''"
    and b4: "?cb ''emailOrUsername'' = Some (BStr ''bob@example.com'')"
    and b5: "plain_verify (dict_get ?cb ''password'') (u_hashed_password bob)"
    by (simp_all add: example_db_def alice_def bob_def plain_verify_def dict_get_def)
  have a1: "db_users example_db = [] @ alice # [bob]"
    and a2: "''sam'' = u_email alice \<or> ''sam'' = u_username alice"
    and a3: "\<forall>x\<in>set []. u_email x \<noteq> ''sam'' \<and> u_username x \<noteq> ''sam''"
    and a4: "?ca ''emailOrUsername'' = Some (BStr ''sam'')"
    and a5: "plain_verify (dict_get ?ca ''password'') (u_hashed_password alice)"
    by (simp_all add: example_db_def alice_def plain_verify_def dict_get_def)
  from login_first_match [where verify_password = plain_verify and credentials = ?cb
         and db = example_db and create_access_token = subject_token and u = bob
         and before = "[alice]" and after = "[]" and ident = "''bob@example.com''",
         OF b1 b2 b3 b4 b5]
       login_first_match [where verify_password = plain_verify and credentials = ?ca
         and db = example_db and create_access_token = subject_token and u = alice
         and before = "[]" and after = "[bob]" and ident = "''sam''",
         OF a1 a2 a3 a4 a5]
  show ?thesis
    by (simp add: subject_token_def alice_def bob_def)
qed

section \<open>Creating a task\<close>

lemma find_by_id:
  assumes "distinct (map t_id c)" and "x \<in> set c"
  shows "find_one task_as_doc (Fields [(''_id'', BOid (t_id x))]) c = Some x"
proof (cases "find_one task_as_doc (Fields [(''_id'', BOid (t_id x))]) c")
  case None
  with assms(2) show ?thesis
    unfolding find_one_None matches_id by blast
next
  case (Some y)
  from find_one_Some [OF Some] have "y \<in> set c" "t_id y = t_id x"
    unfolding matches_id by simp_all
  with same_id_same_task [OF assms(1) _ assms(2)] have "y = x" by blast
  with Some show ?thesis by simp
qed

lemma find_appended:
  "\<forall>x\<in>set c. \<not> P x \<Longrightarrow> P y \<Longrightarrow> List.find P (c @ [y]) = Some y"
  by (induction c) simp_all

lemma create_task_fresh:
  assumes "new_oid \<notin> set (map t_id (db_tasks db))"
  shows "create_task task current_user now new_oid db =
     (Inr (pop_id (created task current_user now new_oid)),
      db\<lparr>db_tasks := db_tasks db @ [created task current_user now new_oid]\<rparr>)"
proof -
  let ?t = "created task current_user now new_oid"
  have i: "t_id ?t = new_oid" by (simp add: created_def)
  have "find_one task_as_doc (Fields [(''_id'', BOid new_oid)]) (db_tasks db @ [?t]) = Some ?t"
    unfolding find_one_def
  proof (rule find_appended)
    show "\<forall>x\<in>set (db_tasks db). \<not> matches (Fields [(''_id'', BOid new_oid)]) (task_as_doc x)"
      unfolding matches_id using assms by auto
    show "matches (Fields [(''_id'', BOid new_oid)]) (task_as_doc ?t)"
      unfolding matches_id by (rule i)
  qed
  with assms show ?thesis
    by (simp add: create_task_def insert_task_def except_Exception_def Let_def i)
qed

lemma parse_title_only:
  "parse_body TaskCreate [''title'' \<mapsto> BStr s] = Inr (title_only s)"
  by (simp add: parse_body_def TaskCreate_def TaskBase_def title_only_def)

lemma created_title_only_fields:
  "t_fields (created (title_only s) current_user now new_oid) =
     [''due_date'' \<mapsto> BNull, ''priority'' \<mapsto> BStr ''medium'',
        ''category'' \<mapsto> BNull, ''description'' \<mapsto> BNull, ''title'' \<mapsto> BStr s,
        ''user_id'' \<mapsto> BStr (u_id current_user), ''created_at'' \<mapsto> BDate now]"
  by (simp add: created_def title_only_def dict_def)

lemma present_title_only:
  "\<exists>body. validate Task (pop_id (created (title_only s) current_user now new_oid)) = Some body
     \<and> body ''title'' = Some (BStr s)
     \<and> body ''completed'' = Some (BBool False)
     \<and> body ''priority'' = Some (BStr ''medium'')
     \<and> body ''id'' = Some (BStr new_oid)
     \<and> body ''user_id'' = Some (BStr (u_id current_user))
     \<and> body ''created_at'' = Some (BDate now)
     \<and> body ''updated_at'' = Some BNull"
  by (simp add: pop_id_def created_title_only_fields Task_def TaskBase_def)
    (simp add: created_def)

lemma matches_tasks_query_completed:
  "matches (Fields (tasks_query current_user category priority (Some b) due_date))
     (task_as_doc t)
     \<Longrightarrow> t_fields t ''completed'' = Some (BBool b)"
  by (simp add: tasks_query_def if_not_None_def task_as_doc_def split: option.splits)

text \<open>
  C5. The claim: a task created from a body with a title alone is returned with
  \<open>completed = false\<close>, \<open>priority = "medium"\<close>, an id, the caller as
  \<open>user_id\<close>, \<open>created_at = now\<close> and no \<open>updated_at\<close>, and a list with the
  filter \<open>completed = false\<close> returns it afterwards. On the code the response is as
  claimed, but the \<open>false\<close> in it is the default of the response model: the
  document that \<open>create_task\<close> stores has no key \<open>completed\<close>, and the query
  \<open>{"completed": false}\<close> does not select a document without the key. So no
  list with the filter \<open>completed = false\<close> returns the new task.
\<close>

theorem create_title_only:
  assumes "new_oid \<notin> set (map t_id (db_tasks db))"
  shows "\<exists>body db'.
           post_api_tasks [''title'' \<mapsto> BStr s] current_user now new_oid db = (Inr body, db')
         \<and> body ''completed'' = Some (BBool False)
         \<and> body ''priority'' = Some (BStr ''medium'')
         \<and> body ''id'' = Some (BStr new_oid)
         \<and> body ''user_id'' = Some (BStr (u_id current_user))
         \<and> body ''created_at'' = Some (BDate now)
         \<and> body ''updated_at'' = Some BNull
         \<and> (\<forall>page limit category priority due_date p.
               fst (get_tasks current_user page limit category priority (Some False) due_date db')
                 = Inr p
               \<longrightarrow> (\<forall>d\<in>set (r_tasks p). d ''id'' \<noteq> Some (BStr new_oid)))"
proof -
  let ?t = "created (title_only s) current_user now new_oid"
  let ?db' = "db\<lparr>db_tasks := db_tasks db @ [?t]\<rparr>"
  from present_title_only [of s current_user now new_oid] obtain body where
    body: "validate Task (pop_id ?t) = Some body"
      "body ''completed'' = Some (BBool False)"
      "body ''priority'' = Some (BStr ''medium'')"
      "body ''id'' = Some (BStr new_oid)"
      "body ''user_id'' = Some (BStr (u_id current_user))"
      "body ''created_at'' = Some (BDate now)"
      "body ''updated_at'' = Some BNull"
    by blast
  have post: "post_api_tasks [''title'' \<mapsto> BStr s] current_user now new_oid db
                = (Inr body, ?db')"
    unfolding post_api_tasks_def parse_title_only create_task_fresh [OF assms]
    by (simp add: response_model_def body(1))
  have unlisted: "d ''id'' \<noteq> Some (BStr new_oid)"
    if p: "fst (get_tasks current_user page limit category priority (Some False) due_date ?db')
             = Inr p"
      and d: "d \<in> set (r_tasks p)" for page limit category priority due_date p d
  proof
    assume same: "d ''id'' = Some (BStr new_oid)"
    from get_tasks_listed [OF p d] obtain x where
      x: "x \<in> set (db_tasks ?db')" "d = pop_id x"
        "matches (Fields (tasks_query current_user category priority (Some False) due_date))
           (task_as_doc x)"
      by blast
    from same x(2) have "t_id x = new_oid" by (simp add: pop_id_def)
    with x(1) assms have "x = ?t" by auto
    with matches_tasks_query_completed [OF x(3)] show False
      by (simp add: created_title_only_fields)
  qed
  from post body(2-7) unlisted show ?thesis
    by blast
qed

theorem create_title_only_witness:
  "status_code (fst (post_api_tasks [''title'' \<mapsto> BStr ''Buy milk''] alice 5 milk_id
                       \<lparr>db_users = [alice, bob], db_tasks = []\<rparr>)) = 200
   \<and> snd (post_api_tasks [''title'' \<mapsto> BStr ''Buy milk''] alice 5 milk_id
            \<lparr>db_users = [alice, bob], db_tasks = []\<rparr>) = example_db
   \<and> fst (get_tasks alice 1 10 None None (Some False) None example_db)
       = Inr \<lparr>r_tasks = [], r_total = 0, r_page = 1, r_limit = 10\<rparr>
   \<and> fst (get_tasks alice 1 10 None None None None example_db)
       = Inr \<lparr>r_tasks = [pop_id milk], r_total = 1, r_page = 1, r_limit = 10\<rparr>"
proof -
  have h: "milk_id \<notin> set (map t_id (db_tasks \<lparr>db_users = [alice, bob], db_tasks = []\<rparr>))"
    by simp
  have c: "created (title_only ''Buy milk'') alice 5 milk_id = milk"
    by (simp add: created_def title_only_def dict_def milk_def fun_upd_twist)
  have post: "snd (post_api_tasks [''title'' \<mapsto> BStr ''Buy milk''] alice 5 milk_id
            \<lparr>db_users = [alice, bob], db_tasks = []\<rparr>) = example_db"
    unfolding post_api_tasks_def parse_title_only create_task_fresh [OF h]
    by (simp add: response_model_def example_db_def c split: option.splits)
  have l1: "fst (get_tasks alice 1 10 None None (Some False) None example_db)
       = Inr \<lparr>r_tasks = [], r_total = 0, r_page = 1, r_limit = 10\<rparr>"
    by (simp add: get_tasks_def tasks_query_def if_truthy_def if_not_None_def
        count_documents_def find_docs_def cursor_skip_def cursor_limit_def
        except_Exception_def task_as_doc_def example_db_def milk_def alice_def)
  have l2: "fst (get_tasks alice 1 10 None None None None example_db)
       = Inr \<lparr>r_tasks = [pop_id milk], r_total = 1, r_page = 1, r_limit = 10\<rparr>"
    by (simp add: get_tasks_def tasks_query_def if_truthy_def if_not_None_def
        count_documents_def find_docs_def cursor_skip_def cursor_limit_def
        except_Exception_def task_as_doc_def example_db_def milk_def alice_def)
  from create_title_only [OF h, of "''Buy milk''" alice 5] post l1 l2 show ?thesis
    by auto
qed

section \<open>Pagination\<close>

lemma matches_owner_only:
  "matches (Fields (tasks_query current_user None None None None)) (task_as_doc t)
     \<longleftrightarrow> t_fields t ''user_id'' = Some (BStr (u_id current_user))"
  by (simp add: tasks_query_def if_truthy_def if_not_None_def task_as_doc_def
      split: option.splits)

lemma find_docs_unfiltered:
  "find_docs (Fields (tasks_query current_user None None None None)) (db_tasks db)
     = owned_tasks current_user db"
  unfolding find_docs_def owned_tasks_def matches_owner_only ..

lemma get_tasks_unfiltered:
  assumes "1 \<le> page" and "0 < limit"
  shows "get_tasks current_user page limit None None None None db =
     (Inr \<lparr>r_tasks = map pop_id (take (nat limit)
                (drop (nat ((page - 1) * limit)) (owned_tasks current_user db))),
           r_total = length (owned_tasks current_user db),
           r_page = page, r_limit = limit\<rparr>, db)"
proof -
  from assms have "0 \<le> (page - 1) * limit" by simp
  with assms(2) show ?thesis
    unfolding get_tasks_def Let_def find_docs_unfiltered count_documents_def
    by (simp add: cursor_skip_def cursor_limit_def except_Exception_def)
qed

lemma chunks_concat:
  "concat (map (\<lambda>i. take n (drop (i * n) xs)) [0..<m]) = take (m * n) xs"
proof (induction m)
  case 0
  show ?case by simp
next
  case (Suc m)
  have "take (Suc m * n) xs = take (m * n) xs @ take n (drop (m * n) xs)"
    by (simp add: take_add [symmetric] add.commute)
  with Suc show ?case by simp
qed

lemma pages_from_one: "[1..int m] = map (\<lambda>i. int i + 1) [0..<m]"
proof (induction m)
  case 0
  show ?case by simp
next
  case (Suc m)
  have "[1..int (Suc m)] = [1..int m] @ [int m + 1]"
    by (simp add: upto_rec2 add.commute)
  with Suc show ?case by simp
qed

lemma ceil_div_covers:
  assumes "0 < (l::int)" and "0 \<le> a"
  shows "a \<le> ((a + l - 1) div l) * l"
proof -
  have "(a + l - 1) div l * l + (a + l - 1) mod l = a + l - 1"
    by (rule div_mult_mod_eq)
  moreover from assms(1) have "(a + l - 1) mod l < l"
    by (rule pos_mod_bound)
  ultimately show ?thesis by linarith
qed

lemma page_tasks_unfiltered:
  assumes "0 < limit"
  shows "page_tasks (get_tasks current_user (int i + 1) limit None None None None db)
     = map pop_id (take (nat limit) (drop (i * nat limit) (owned_tasks current_user db)))"
proof -
  have "nat ((int i + 1 - 1) * limit) = i * nat limit"
    by (simp add: nat_mult_distrib)
  then show ?thesis
    unfolding page_tasks_def get_tasks_unfiltered [of "int i + 1", OF _ assms, simplified]
    by simp
qed

lemma walk_pages:
  assumes "0 < limit"
  shows "concat (map (\<lambda>page. page_tasks
            (get_tasks current_user page limit None None None None db))
          [1..(int (length (owned_tasks current_user db)) + limit - 1) div limit])
     = map pop_id (owned_tasks current_user db)"
proof -
  let ?xs = "owned_tasks current_user db"
  let ?N = "(int (length ?xs) + limit - 1) div limit"
  let ?m = "nat ?N"
  let ?n = "nat limit"
  from assms have N: "0 \<le> ?N"
    by (simp add: pos_imp_zdiv_nonneg_iff)
  then have pages: "[1..?N] = map (\<lambda>i. int i + 1) [0..<?m]"
    using pages_from_one [of ?m] by simp
  from ceil_div_covers [OF assms, of "int (length ?xs)"]
  have "int (length ?xs) \<le> ?N * limit" by simp
  also from N assms have "?N * limit = int (?m * ?n)" by simp
  finally have enough: "length ?xs \<le> ?m * ?n" by linarith
  have "concat (map (\<lambda>page. page_tasks
            (get_tasks current_user page limit None None None None db)) [1..?N])
      = concat (map (\<lambda>i. map pop_id (take ?n (drop (i * ?n) ?xs))) [0..<?m])"
    unfolding pages by (simp add: o_def page_tasks_unfiltered [OF assms])
  also have "\<dots> = map pop_id (concat (map (\<lambda>i. take ?n (drop (i * ?n) ?xs)) [0..<?m]))"
    by (simp add: map_concat o_def)
  also have "\<dots> = map pop_id (take (?m * ?n) ?xs)"
    by (simp only: chunks_concat)
  also from enough have "\<dots> = map pop_id ?xs"
    by simp
  finally show ?thesis .
qed

lemma distinct_listed_ids:
  assumes "distinct (map t_id (db_tasks db))"
  shows "distinct (map (\<lambda>d. d ''id'') (map pop_id (owned_tasks current_user db)))"
proof -
  have "map (\<lambda>d. d ''id'') (map pop_id (owned_tasks current_user db))
          = map (\<lambda>i. Some (BStr i)) (map t_id (owned_tasks current_user db))"
    by (simp add: pop_id_def)
  moreover from assms have "distinct (map t_id (owned_tasks current_user db))"
    unfolding owned_tasks_def by (rule distinct_map_filter)
  ultimately show ?thesis
    by (simp add: distinct_map inj_on_def)
qed

text \<open>
  C7. For every positive limit, a list without filters skips \<open>(page - 1) * limit\<close>
  of the caller's tasks and returns the next \<open>limit\<close> of them; its total is the
  number of all the caller's tasks on every page; and the pages 1 to
  \<open>ceil(total / limit)\<close>, one after the other, are exactly the caller's tasks, each
  once: none is left out, and no id comes twice. The database does not change
  between the pages.
\<close>

theorem pagination_reconstructs:
  assumes "0 < limit"
  shows "(\<forall>page. 1 \<le> page \<longrightarrow>
            get_tasks current_user page limit None None None None db =
              (Inr \<lparr>r_tasks = map pop_id (take (nat limit)
                        (drop (nat ((page - 1) * limit)) (owned_tasks current_user db))),
                    r_total = length (owned_tasks current_user db),
                    r_page = page, r_limit = limit\<rparr>, db))
       \<and> concat (map (\<lambda>page. page_tasks
              (get_tasks current_user page limit None None None None db))
            [1..(int (length (owned_tasks current_user db)) + limit - 1) div limit])
           = map pop_id (owned_tasks current_user db)
       \<and> (distinct (map t_id (db_tasks db)) \<longrightarrow>
            distinct (map (\<lambda>d. d ''id'') (concat (map (\<lambda>page. page_tasks
              (get_tasks current_user page limit None None None None db))
            [1..(int (length (owned_tasks current_user db)) + limit - 1) div limit]))))"
  unfolding walk_pages [OF assms]
  using get_tasks_unfiltered [OF _ assms] distinct_listed_ids
  by blast

lemma owned_busy: "owned_tasks alice busy_db = [milk, report, call]"
  by (simp add: owned_tasks_def busy_db_def milk_def report_def bread_def call_def
      alice_def bob_def)

theorem pagination_reconstructs_witness:
  "get_tasks alice 2 2 None None None None busy_db =
     (Inr \<lparr>r_tasks = [pop_id call], r_total = 3, r_page = 2, r_limit = 2\<rparr>, busy_db)
   \<and> concat (map (\<lambda>page. page_tasks (get_tasks alice page 2 None None None None busy_db))
        [1..2])
       = [pop_id milk, pop_id report, pop_id call]"
proof -
  have h: "(0::int) < 2" by simp
  have n: "(int (length (owned_tasks alice busy_db)) + 2 - 1) div 2 = 2"
    by (simp add: owned_busy)
  from pagination_reconstructs [OF h, of alice busy_db] show ?thesis
    unfolding n by (simp add: owned_busy)
qed

section \<open>List filters\<close>

lemma field_matches_str:
  "k \<noteq> ''_id'' \<Longrightarrow>
     field_matches (task_as_doc t) (k, BStr s) \<longleftrightarrow> t_fields t k = Some (BStr s)"
  by (simp add: task_as_doc_def split: option.splits)

lemma field_matches_bool:
  "k \<noteq> ''_id'' \<Longrightarrow>
     field_matches (task_as_doc t) (k, BBool b) \<longleftrightarrow> t_fields t k = Some (BBool b)"
  by (simp add: task_as_doc_def split: option.splits)

lemma matches_if_truthy:
  "k \<noteq> ''_id'' \<Longrightarrow>
     list_all (field_matches (task_as_doc t)) (if_truthy k v)
       \<longleftrightarrow> (case v of None \<Rightarrow> True | Some s \<Rightarrow> s = [] \<or> t_fields t k = Some (BStr s))"
  by (simp add: if_truthy_def field_matches_str del: field_matches.simps split: option.splits)

lemma matches_if_not_None:
  "k \<noteq> ''_id'' \<Longrightarrow>
     list_all (field_matches (task_as_doc t)) (if_not_None k v)
       \<longleftrightarrow> (case v of None \<Rightarrow> True | Some b \<Rightarrow> t_fields t k = Some (BBool b))"
  by (simp add: if_not_None_def field_matches_bool del: field_matches.simps
      split: option.splits)

lemma matches_tasks_query:
  assumes "due_date = None \<or> due_date = Some []"
  shows "matches (Fields (tasks_query current_user category priority completed due_date))
           (task_as_doc t)
         \<longleftrightarrow> exact_match current_user category priority completed t"
proof -
  from assms have "if_truthy ''due_date'' due_date = []"
    by (auto simp: if_truthy_def)
  then show ?thesis
    unfolding tasks_query_def exact_match_def matches.simps list_all_append
    by (simp add: matches_if_truthy matches_if_not_None field_matches_str
        del: field_matches.simps)
qed

lemma find_docs_exact_match:
  assumes "due_date = None \<or> due_date = Some []"
  shows "find_docs (Fields (tasks_query current_user category priority completed due_date)) c
           = filter (exact_match current_user category priority completed) c"
  unfolding find_docs_def matches_tasks_query [OF assms] ..

text \<open>
  C9, amended. In a list without a \<open>due_date\<close> filter (absent or empty), each of
  \<open>category\<close> and \<open>priority\<close> that is supplied as a non-empty string, and
  \<open>completed\<close> supplied as either boolean, is an exact-match condition,
  and-combined with the owner condition; a filter that is absent or the empty
  string is no condition. The list is the window of the selected tasks and its
  total their number.
\<close>

theorem filters_exact_match:
  assumes "0 \<le> (page - 1) * limit" and "0 \<le> limit"
    and "due_date = None \<or> due_date = Some []"
  shows "get_tasks current_user page limit category priority completed due_date db =
     (Inr \<lparr>r_tasks = map pop_id
              (if limit = 0
               then drop (nat ((page - 1) * limit))
                      (filter (exact_match current_user category priority completed)
                         (db_tasks db))
               else take (nat limit) (drop (nat ((page - 1) * limit))
                      (filter (exact_match current_user category priority completed)
                         (db_tasks db)))),
           r_total = length
              (filter (exact_match current_user category priority completed)
                 (db_tasks db)),
           r_page = page, r_limit = limit\<rparr>, db)"
proof -
  from assms(2) have "\<bar>limit\<bar> = limit" by simp
  with assms(1) show ?thesis
    unfolding get_tasks_def Let_def find_docs_exact_match [OF assms(3)] count_documents_def
    by (simp add: cursor_skip_def cursor_limit_def except_Exception_def)
qed

text \<open>
  C9, as stated, fails for a filter supplied as the empty string: \<open>if category:\<close>
  is false for it, and the list with \<open>category = ""\<close> returns all of Alice's
  tasks, the one of category \<open>work\<close> among them.
\<close>

theorem empty_filter_counterexample:
  "t_fields report ''category'' = Some (BStr ''work'')
   \<and> get_tasks alice 1 10 (Some '''') None None None busy_db =
       (Inr \<lparr>r_tasks = [pop_id milk, pop_id report, pop_id call], r_total = 3,
             r_page = 1, r_limit = 10\<rparr>, busy_db)"
proof -
  have n: "(None :: string option) = None \<or> (None :: string option) = Some []"
    by simp
  have "filter (exact_match alice (Some '''') None None) (db_tasks busy_db)
          = [milk, report, call]"
    by (simp add: exact_match_def busy_db_def milk_def report_def bread_def call_def
        alice_def bob_def)
  then show ?thesis
    unfolding get_tasks_def Let_def find_docs_exact_match [OF n] count_documents_def
    by (simp add: cursor_skip_def cursor_limit_def except_Exception_def report_def)
qed

theorem filters_exact_match_witness:
  "get_tasks alice 1 10 (Some ''work'') None (Some True) None busy_db =
     (Inr \<lparr>r_tasks = [pop_id report], r_total = 1, r_page = 1, r_limit = 10\<rparr>, busy_db)
   \<and> get_tasks alice 2 1 None (Some ''medium'') None (Some '''') busy_db =
     (Inr \<lparr>r_tasks = [pop_id call], r_total = 2, r_page = 2, r_limit = 1\<rparr>, busy_db)"
proof -
  have h: "(0::int) \<le> (1 - 1) * 10" and l: "(0::int) \<le> 10"
    and d: "(None :: string option) = None \<or> (None :: string option) = Some []"
    by simp_all
  have h': "(0::int) \<le> (2 - 1) * 1" and l': "(0::int) \<le> 1"
    and d': "Some '''' = (None :: string option) \<or> Some '''' = Some []"
    by simp_all
  have w: "filter (exact_match alice (Some ''work'') None (Some True)) (db_tasks busy_db)
          = [report]"
    by (simp add: exact_match_def busy_db_def milk_def report_def bread_def call_def
        alice_def bob_def)
  have m: "filter (exact_match alice None (Some ''medium'') None) (db_tasks busy_db)
          = [milk, call]"
    by (simp add: exact_match_def busy_db_def milk_def report_def bread_def call_def
        alice_def bob_def)
  from filters_exact_match [OF h l d, of alice "Some ''work''" None "Some True" busy_db]
       filters_exact_match [OF h' l' d', of alice None "Some ''medium''" None busy_db]
  show ?thesis
    unfolding w m by simp
qed

section \<open>Updating a task\<close>

lemma find_owned:
  assumes "distinct (map t_id c)" and "t \<in> set c"
    and "t_fields t ''user_id'' = Some (BStr uid)"
  shows "find_one task_as_doc (Fields [(''_id'', BOid (t_id t)), (''user_id'', BStr uid)]) c
           = Some t"
proof (cases "find_one task_as_doc
                (Fields [(''_id'', BOid (t_id t)), (''user_id'', BStr uid)]) c")
  case None
  with assms(2,3) show ?thesis
    unfolding find_one_None matches_id_owner by blast
next
  case (Some y)
  from find_one_Some [OF Some] have "y \<in> set c" "t_id y = t_id t"
    unfolding matches_id_owner by simp_all
  with same_id_same_task [OF assms(1) _ assms(2)] have "y = t" by blast
  with Some show ?thesis by simp
qed

lemma update_one_by_id:
  assumes "distinct (map t_id c)"
  shows "update_one (Fields [(''_id'', BOid i)]) upd c
           = map (\<lambda>x. if t_id x = i then updated x upd else x) c"
  using assms
proof (induction c)
  case Nil
  show ?case by simp
next
  case (Cons a c)
  show ?case
  proof (cases "t_id a = i")
    case True
    with Cons.prems have "\<forall>x\<in>set c. t_id x \<noteq> i" by (force simp: image_iff)
    then have "map (\<lambda>x. if t_id x = i then updated x upd else x) c = c"
      by (simp add: map_idI)
    with True show ?thesis
      by (simp add: matches_id updated_def del: matches.simps)
  next
    case False
    with Cons show ?thesis
      by (simp add: matches_id del: matches.simps)
  qed
qed

lemma update_task_owned:
  assumes "distinct (map t_id (db_tasks db))"
    and "t \<in> set (db_tasks db)"
    and "t_fields t ''user_id'' = Some (BStr (u_id current_user))"
    and "ObjectId task_id = Inr (t_id t)"
  shows "update_task task_id task_update current_user now db =
     (Inr (pop_id (updated t ((dict_exclude_unset task_update)(''updated_at'' \<mapsto> BDate now)))),
      db\<lparr>db_tasks := map (\<lambda>x. if t_id x = t_id t
                then updated t ((dict_exclude_unset task_update)(''updated_at'' \<mapsto> BDate now))
                else x) (db_tasks db)\<rparr>)"
proof -
  let ?upd = "(dict_exclude_unset task_update)(''updated_at'' \<mapsto> BDate now)"
  let ?t' = "updated t ?upd"
  let ?c' = "map (\<lambda>x. if t_id x = t_id t then ?t' else x) (db_tasks db)"
  have same: "map (\<lambda>x. if t_id x = t_id t then updated x ?upd else x) (db_tasks db) = ?c'"
  proof (rule map_cong [OF refl])
    fix x assume "x \<in> set (db_tasks db)"
    with same_id_same_task [OF assms(1) _ assms(2)]
    show "(if t_id x = t_id t then updated x ?upd else x) = (if t_id x = t_id t then ?t' else x)"
      by auto
  qed
  have u: "update_one (Fields [(''_id'', BOid (t_id t))]) ?upd (db_tasks db) = ?c'"
    unfolding update_one_by_id [OF assms(1)] by (rule same)
  have ids: "map t_id ?c' = map t_id (db_tasks db)"
    unfolding map_map by (rule map_cong [OF refl]) (simp add: updated_def)
  have "?t' \<in> set ?c'"
    using assms(2) by (auto simp: image_iff)
  moreover have "distinct (map t_id ?c')" unfolding ids by (rule assms(1))
  ultimately have "find_one task_as_doc (Fields [(''_id'', BOid (t_id ?t'))]) ?c' = Some ?t'"
    by (rule find_by_id [rotated])
  then have f: "find_one task_as_doc (Fields [(''_id'', BOid (t_id t))]) ?c' = Some ?t'"
    by (simp add: updated_def)
  show ?thesis
    unfolding update_task_def Let_def assms(4) sum.case find_owned [OF assms(1,2,3)]
      option.case u f
    by (simp add: except_Exception_def)
qed

lemma validate_field_supplied:
  "validate_field d f k = Some w \<Longrightarrow> d k = Some v \<Longrightarrow> w = v"
  by (cases f) (simp_all split: if_splits)

lemma validate_supplied:
  "validate m d = Some vs \<Longrightarrow> d k = Some v \<Longrightarrow> k \<in> set (map fst m) \<Longrightarrow> vs k = Some v"
proof (induction m arbitrary: vs)
  case Nil
  then show ?case by simp
next
  case (Cons a m)
  obtain k' f where a: "a = (k', f)" by (cases a)
  from Cons.prems(1) a obtain w vs' where
    w: "validate_field d f k' = Some w" and vs': "validate m d = Some vs'"
    and vs: "vs = vs'(k' \<mapsto> w)"
    by (auto split: option.splits)
  show ?case
  proof (cases "k = k'")
    case True
    with validate_field_supplied [OF w] Cons.prems(2) vs show ?thesis by simp
  next
    case False
    with Cons.prems(3) a have "k \<in> set (map fst m)" by simp
    from Cons.IH [OF vs' Cons.prems(2) this] False vs show ?thesis by simp
  qed
qed

lemma validate_outside:
  "validate m d = Some vs \<Longrightarrow> k \<notin> set (map fst m) \<Longrightarrow> vs k = None"
proof (induction m arbitrary: vs)
  case Nil
  then show ?case by auto
next
  case (Cons a m)
  obtain k' f where a: "a = (k', f)" by (cases a)
  from Cons.prems(1) a obtain w vs' where
    vs': "validate m d = Some vs'" and vs: "vs = vs'(k' \<mapsto> w)"
    by (auto split: option.splits)
  from Cons.prems(2) a have "k \<noteq> k'" "k \<notin> set (map fst m)" by simp_all
  with Cons.IH [OF vs'] vs show ?case by simp
qed

lemma set_fields_of_body:
  assumes "parse_body TaskUpdate body = Inr task_update"
  shows "old ++ (dict_exclude_unset task_update)(''updated_at'' \<mapsto> BDate now)
           = updated_fields old body now"
proof
  fix k
  from assms obtain vs where vs: "validate TaskUpdate body = Some vs"
    and tu: "task_update = \<lparr>m_values = vs, m_fields_set = (\<lambda>k. body k \<noteq> None)\<rparr>"
    by (auto simp: parse_body_def split: option.splits)
  show "(old ++ (dict_exclude_unset task_update)(''updated_at'' \<mapsto> BDate now)) k
          = updated_fields old body now k"
  proof (cases "k = ''updated_at''")
    case True
    then show ?thesis by (simp add: updated_fields_def)
  next
    case other: False
    show ?thesis
    proof (cases "body k")
      case None
      with other show ?thesis
        by (simp add: updated_fields_def map_add_def dict_exclude_unset_def tu)
    next
      case (Some v)
      show ?thesis
      proof (cases "k \<in> set (map fst TaskUpdate)")
        case True
        from validate_supplied [OF vs Some True] Some True other show ?thesis
          by (simp add: updated_fields_def map_add_def dict_exclude_unset_def tu)
      next
        case False
        from validate_outside [OF vs False] Some False other show ?thesis
          by (simp add: updated_fields_def map_add_def dict_exclude_unset_def tu)
      qed
    qed
  qed
qed

lemma put_api_tasks_owned:
  assumes "distinct (map t_id (db_tasks db))"
    and "t \<in> set (db_tasks db)"
    and "t_fields t ''user_id'' = Some (BStr (u_id current_user))"
    and "ObjectId task_id = Inr (t_id t)"
    and "validate TaskUpdate body \<noteq> None"
  shows "put_api_tasks task_id body current_user now db =
     (case validate Task (pop_id (t\<lparr>t_fields := updated_fields (t_fields t) body now\<rparr>)) of
        None \<Rightarrow> Inl ResponseValidationError
      | Some b \<Rightarrow> Inr b,
      db\<lparr>db_tasks := map (\<lambda>x. if t_id x = t_id t
                then t\<lparr>t_fields := updated_fields (t_fields t) body now\<rparr>
                else x) (db_tasks db)\<rparr>)"
proof -
  from assms(5) obtain task_update where p: "parse_body TaskUpdate body = Inr task_update"
    by (auto simp: parse_body_def)
  have u: "updated t ((dict_exclude_unset task_update)(''updated_at'' \<mapsto> BDate now))
             = t\<lparr>t_fields := updated_fields (t_fields t) body now\<rparr>"
    unfolding updated_def set_fields_of_body [OF p] ..
  show ?thesis
    unfolding put_api_tasks_def p sum.case update_task_owned [OF assms(1-4)] u
    by (simp add: response_model_def split: option.splits)
qed

lemma validate_ok_iff:
  "validate m d \<noteq> None \<longleftrightarrow> (\<forall>(k, f)\<in>set m. validate_field d f k \<noteq> None)"
  by (induction m) (auto split: option.splits)

lemma validate_field_same:
  "d' k = d k \<Longrightarrow> validate_field d' f k = validate_field d f k"
  by (cases f) simp_all

lemma TaskBase_keys:
  assumes "(k, f) \<in> set TaskBase"
  shows "k \<noteq> ''id''" and "k \<noteq> ''updated_at''" and "k \<in> set (map fst TaskUpdate)"
    and "(k, f) \<in> set TaskUpdate" and "(k, f) \<in> set Task"
  using assms by (auto simp: TaskBase_def TaskUpdate_def Task_def)

lemma response_after_update:
  assumes "validate Task (pop_id t) \<noteq> None"
    and "validate TaskUpdate body \<noteq> None"
    and "body ''completed'' \<noteq> Some BNull"
  shows "validate Task (pop_id (t\<lparr>t_fields := updated_fields (t_fields t) body now\<rparr>))
           \<noteq> None"
proof -
  let ?d = "pop_id t"
  let ?d' = "pop_id (t\<lparr>t_fields := updated_fields (t_fields t) body now\<rparr>)"
  from assms(1) have old: "validate_field ?d f k \<noteq> None" if "(k, f) \<in> set Task" for k f
    using that unfolding validate_ok_iff by blast
  from assms(2) have new: "validate_field body f k \<noteq> None" if "(k, f) \<in> set TaskUpdate" for k f
    using that unfolding validate_ok_iff by blast
  have base: "validate_field ?d' f k \<noteq> None" if kf: "(k, f) \<in> set TaskBase" for k f
  proof (cases "body k")
    case None
    with TaskBase_keys(1,2) [OF kf] have "?d' k = ?d k"
      by (simp add: pop_id_def updated_fields_def)
    then have "validate_field ?d' f k = validate_field ?d f k"
      by (rule validate_field_same)
    with old [OF TaskBase_keys(5) [OF kf]] show ?thesis
      by simp
  next
    case (Some v)
    with TaskBase_keys(1,2,3) [OF kf] have "?d' k = body k"
      by (simp add: pop_id_def updated_fields_def)
    then have "validate_field ?d' f k = validate_field body f k"
      by (rule validate_field_same)
    with new [OF TaskBase_keys(4) [OF kf]] show ?thesis
      by simp
  qed
  have ident: "validate_field ?d' (Required TStr) ''id'' \<noteq> None"
    by (simp add: pop_id_def)
  have "?d' ''user_id'' = ?d ''user_id''"
    by (simp add: pop_id_def updated_fields_def TaskUpdate_def TaskBase_def)
  then have "validate_field ?d' (Required TStr) ''user_id''
               = validate_field ?d (Required TStr) ''user_id''"
    by (rule validate_field_same)
  with old [of "''user_id''" "Required TStr"]
  have owner: "validate_field ?d' (Required TStr) ''user_id'' \<noteq> None"
    by (simp add: Task_def)
  have "?d' ''created_at'' = ?d ''created_at''"
    by (simp add: pop_id_def updated_fields_def TaskUpdate_def TaskBase_def)
  then have "validate_field ?d' (Required TDatetime) ''created_at''
               = validate_field ?d (Required TDatetime) ''created_at''"
    by (rule validate_field_same)
  with old [of "''created_at''" "Required TDatetime"]
  have born: "validate_field ?d' (Required TDatetime) ''created_at'' \<noteq> None"
    by (simp add: Task_def)
  have touched: "validate_field ?d' (Optional TDatetime BNull) ''updated_at'' \<noteq> None"
    by (simp add: pop_id_def updated_fields_def)
  have compl: "validate_field ?d' (Default TBool (BBool False)) ''completed'' \<noteq> None"
  proof (cases "body ''completed''")
    case None
    then have "?d' ''completed'' = ?d ''completed''"
      by (simp add: pop_id_def updated_fields_def)
    then have "validate_field ?d' (Default TBool (BBool False)) ''completed''
                 = validate_field ?d (Default TBool (BBool False)) ''completed''"
      by (rule validate_field_same)
    with old [of "''completed''" "Default TBool (BBool False)"]
    show ?thesis
      by (simp add: Task_def)
  next
    case (Some v)
    then have d': "?d' ''completed'' = Some v"
      by (simp add: pop_id_def updated_fields_def TaskUpdate_def)
    from new [of "''completed''" "Optional TBool BNull"] Some assms(3)
    have "has_type TBool v"
      by (simp add: TaskUpdate_def split: if_splits)
    with d' show ?thesis by simp
  qed
  have "validate_field ?d' f k \<noteq> None" if "(k, f) \<in> set Task" for k f
  proof -
    from that consider "(k, f) \<in> set TaskBase" | "(k, f) = (''id'', Required TStr)"
      | "(k, f) = (''user_id'', Required TStr)"
      | "(k, f) = (''completed'', Default TBool (BBool False))"
      | "(k, f) = (''created_at'', Required TDatetime)"
      | "(k, f) = (''updated_at'', Optional TDatetime BNull)"
      unfolding Task_def by auto
    then show ?thesis
      using base ident owner born touched compl by cases simp_all
  qed
  then show ?thesis
    unfolding validate_ok_iff by blast
qed

text \<open>
  C6, as stated, fails: \<open>TaskUpdate\<close> inherits the required \<open>title\<close> of
  \<open>TaskBase\<close>, so a body without fields does not pass validation. The update
  answers 422 and the task keeps its fields, \<open>updated_at\<close> included.
\<close>

theorem empty_update_counterexample:
  "milk \<in> set (db_tasks example_db)
   \<and> t_fields milk ''user_id'' = Some (BStr (u_id alice))
   \<and> put_api_tasks milk_id Map.empty alice 9 example_db
       = (Inl RequestValidationError, example_db)
   \<and> status_code (fst (put_api_tasks milk_id Map.empty alice 9 example_db)) = 422"
  by (simp add: put_api_tasks_def parse_body_def TaskUpdate_def TaskBase_def example_db_def
      milk_def)

text \<open>
  C6, amended. For every task of the caller and every body that passes the
  validation of \<open>TaskUpdate\<close>, which requires \<open>title\<close>, the update sets
  \<open>updated_at\<close> to now, sets the fields of \<open>TaskUpdate\<close> that the body supplies
  to the supplied values, and leaves every other field of the task and every other
  task as they were. It answers 200 when the response model accepted the task before
  and the body does not set \<open>completed\<close> to null. A body with the title alone
  changes \<open>title\<close> and \<open>updated_at\<close> and nothing else.
\<close>

theorem update_sets_supplied_fields:
  assumes "distinct (map t_id (db_tasks db))"
    and "t \<in> set (db_tasks db)"
    and "t_fields t ''user_id'' = Some (BStr (u_id current_user))"
    and "ObjectId task_id = Inr (t_id t)"
    and "validate TaskUpdate body \<noteq> None"
  shows "put_api_tasks task_id body current_user now db =
           (case validate Task (pop_id (t\<lparr>t_fields := updated_fields (t_fields t) body now\<rparr>)) of
              None \<Rightarrow> Inl ResponseValidationError
            | Some b \<Rightarrow> Inr b,
            db\<lparr>db_tasks := map (\<lambda>x. if t_id x = t_id t
                      then t\<lparr>t_fields := updated_fields (t_fields t) body now\<rparr>
                      else x) (db_tasks db)\<rparr>)
       \<and> (validate Task (pop_id t) \<noteq> None \<and> body ''completed'' \<noteq> Some BNull
            \<longrightarrow> status_code (fst (put_api_tasks task_id body current_user now db)) = 200)
       \<and> ((\<forall>k. k \<noteq> ''title'' \<longrightarrow> body k = None)
            \<longrightarrow> updated_fields (t_fields t) body now
                  = (t_fields t)(''title'' := body ''title'', ''updated_at'' \<mapsto> BDate now))"
proof (intro conjI impI)
  show "put_api_tasks task_id body current_user now db =
           (case validate Task (pop_id (t\<lparr>t_fields := updated_fields (t_fields t) body now\<rparr>)) of
              None \<Rightarrow> Inl ResponseValidationError
            | Some b \<Rightarrow> Inr b,
            db\<lparr>db_tasks := map (\<lambda>x. if t_id x = t_id t
                      then t\<lparr>t_fields := updated_fields (t_fields t) body now\<rparr>
                      else x) (db_tasks db)\<rparr>)"
    by (rule put_api_tasks_owned [OF assms])
next
  assume "validate Task (pop_id t) \<noteq> None \<and> body ''completed'' \<noteq> Some BNull"
  then have "validate Task (pop_id (t\<lparr>t_fields := updated_fields (t_fields t) body now\<rparr>))
               \<noteq> None"
    using response_after_update [OF _ assms(5)] by blast
  then show "status_code (fst (put_api_tasks task_id body current_user now db)) = 200"
    unfolding put_api_tasks_owned [OF assms] by auto
next
  assume only: "\<forall>k. k \<noteq> ''title'' \<longrightarrow> body k = None"
  from assms(5) have "validate_field body (Required TStr) ''title'' \<noteq> None"
    unfolding validate_ok_iff by (simp add: TaskUpdate_def TaskBase_def)
  then have title: "body ''title'' \<noteq> None"
    by (auto split: option.splits)
  show "updated_fields (t_fields t) body now
          = (t_fields t)(''title'' := body ''title'', ''updated_at'' \<mapsto> BDate now)"
  proof
    fix k
    from only title
    show "updated_fields (t_fields t) body now k
            = ((t_fields t)(''title'' := body ''title'', ''updated_at'' \<mapsto> BDate now)) k"
      by (cases "k = ''title''") (simp_all add: updated_fields_def TaskUpdate_def TaskBase_def)
  qed
qed

theorem update_sets_supplied_fields_witness:
  "put_api_tasks milk_id [''title'' \<mapsto> BStr ''Buy oat milk''] alice 9 example_db
     = (case validate Task (pop_id (milk\<lparr>t_fields :=
                updated_fields (t_fields milk) [''title'' \<mapsto> BStr ''Buy oat milk''] 9\<rparr>)) of
          None \<Rightarrow> Inl ResponseValidationError
        | Some b \<Rightarrow> Inr b,
        example_db\<lparr>db_tasks := [milk\<lparr>t_fields :=
                updated_fields (t_fields milk) [''title'' \<mapsto> BStr ''Buy oat milk''] 9\<rparr>]\<rparr>)
   \<and> status_code (fst (put_api_tasks milk_id [''title'' \<mapsto> BStr ''Buy oat milk''] alice 9
                          example_db)) = 200
   \<and> updated_fields (t_fields milk) [''title'' \<mapsto> BStr ''Buy oat milk''] 9
       = (t_fields milk)(''title'' \<mapsto> BStr ''Buy oat milk'', ''updated_at'' \<mapsto> BDate 9)"
proof -
  let ?body = "[''title'' \<mapsto> BStr ''Buy oat milk'']"
  have h1: "distinct (map t_id (db_tasks example_db))"
    and h2: "milk \<in> set (db_tasks example_db)"
    by (simp_all add: example_db_def)
  have h3: "t_fields milk ''user_id'' = Some (BStr (u_id alice))"
    by (simp add: milk_def)
  have h4: "ObjectId milk_id = Inr (t_id milk)"
    by (simp add: ObjectId_def milk_id_def milk_def is_hex_def lower_hex_def)
  have h5: "validate TaskUpdate ?body \<noteq> None"
    by (simp add: TaskUpdate_def TaskBase_def)
  have p: "validate Task (pop_id milk) \<noteq> None"
    by (simp add: Task_def TaskBase_def pop_id_def milk_def)
  have c: "?body ''completed'' \<noteq> Some BNull"
    by simp
  have o: "\<forall>k. k \<noteq> ''title'' \<longrightarrow> ?body k = None"
    by simp
  note th = update_sets_supplied_fields [OF h1 h2 h3 h4 h5, of 9]
  have m: "map (\<lambda>x. if t_id x = t_id milk
                then milk\<lparr>t_fields := updated_fields (t_fields milk) ?body 9\<rparr>
                else x) (db_tasks example_db)
             = [milk\<lparr>t_fields := updated_fields (t_fields milk) ?body 9\<rparr>]"
    by (simp add: example_db_def)
  from th have r: "put_api_tasks milk_id ?body alice 9 example_db
     = (case validate Task (pop_id (milk\<lparr>t_fields :=
                updated_fields (t_fields milk) ?body 9\<rparr>)) of
          None \<Rightarrow> Inl ResponseValidationError
        | Some b \<Rightarrow> Inr b,
        example_db\<lparr>db_tasks := [milk\<lparr>t_fields :=
                updated_fields (t_fields milk) ?body 9\<rparr>]\<rparr>)"
    unfolding m by (rule conjunct1)
  from th p c have s: "status_code (fst (put_api_tasks milk_id ?body alice 9 example_db)) = 200"
    by blast
  from th o have "updated_fields (t_fields milk) ?body 9
       = (t_fields milk)(''title'' := ?body ''title'', ''updated_at'' \<mapsto> BDate 9)"
    by blast
  then have f: "updated_fields (t_fields milk) ?body 9
       = (t_fields milk)(''title'' \<mapsto> BStr ''Buy oat milk'', ''updated_at'' \<mapsto> BDate 9)"
    by simp
  from r s f show ?thesis
    by (intro conjI)
qed

section \<open>The handlers keep the ids of tasks unique\<close>

text \<open>
  The theorems on single tasks assume that no two documents of \<open>db.tasks\<close> share
  an \<open>_id\<close>. Every handler that writes the collection keeps it so.
\<close>

lemma update_one_ids: "map t_id (update_one q upd c) = map t_id c"
  by (induction c) simp_all

lemma delete_one_ids: "distinct (map t_id c) \<Longrightarrow> distinct (map t_id (delete_one q c))"
proof (induction c)
  case Nil
  show ?case by simp
next
  case (Cons a c)
  have "set (delete_one q c) \<subseteq> set c"
    by (induction c) auto
  with Cons show ?case by auto
qed

lemma create_task_keeps_ids_unique:
  assumes "distinct (map t_id (db_tasks db))"
  shows "distinct (map t_id (db_tasks (snd (create_task task current_user now new_oid db))))"
proof (cases "new_oid \<in> set (map t_id (db_tasks db))")
  case True
  with assms show ?thesis
    by (simp add: create_task_def insert_task_def except_Exception_def Let_def created_def)
next
  case False
  with assms show ?thesis
    unfolding create_task_fresh [OF False] by (simp add: created_def)
qed

lemma update_task_keeps_ids_unique:
  assumes "distinct (map t_id (db_tasks db))"
  shows "distinct (map t_id (db_tasks (snd (update_task task_id task_update current_user now db))))"
  using assms
  by (simp add: update_task_def except_Exception_def Let_def update_one_ids
      split: sum.splits option.splits)

lemma delete_task_keeps_ids_unique:
  assumes "distinct (map t_id (db_tasks db))"
  shows "distinct (map t_id (db_tasks (snd (delete_task task_id current_user db))))"
  using assms
  by (simp add: delete_task_def except_Exception_def delete_one_ids
      split: sum.splits option.splits)

section \<open>The due date of a created task\<close>

text \<open>
  \<open>TaskBase\<close> declares \<open>due_date\<close> a datetime, and \<open>get_tasks\<close> takes its
  \<open>due_date\<close> filter as a string and puts the string into the query. The task
  that \<open>create_task\<close> stores holds a datetime or null under \<open>due_date\<close>, never
  a string, so the query of no non-empty \<open>due_date\<close> filter matches it, the
  task's own due date included.
\<close>

lemma validate_field_datetime:
  "validate_field d (Optional TDatetime BNull) k = Some v \<Longrightarrow> v \<noteq> BStr s"
  by (cases "d k") (auto split: if_splits)

lemma validated_value:
  "validate m d = Some vs \<Longrightarrow> vs k = Some v
     \<Longrightarrow> \<exists>f. (k, f) \<in> set m \<and> validate_field d f k = Some v"
proof (induction m arbitrary: vs)
  case Nil
  then show ?case by auto
next
  case (Cons a m)
  obtain k' f where a: "a = (k', f)" by (cases a)
  from Cons.prems(1) a obtain w vs' where
    w: "validate_field d f k' = Some w" and vs': "validate m d = Some vs'"
    and vs: "vs = vs'(k' \<mapsto> w)"
    by (auto split: option.splits)
  show ?case
  proof (cases "k = k'")
    case True
    with Cons.prems(2) vs w a show ?thesis by auto
  next
    case False
    with Cons.prems(2) vs have "vs' k = Some v" by simp
    from Cons.IH [OF vs' this] show ?thesis by auto
  qed
qed

lemma created_due_date_not_string:
  assumes "parse_body TaskCreate body = Inr task"
  shows "t_fields (created task current_user now new_oid) ''due_date'' \<noteq> Some (BStr s)"
proof
  assume s: "t_fields (created task current_user now new_oid) ''due_date'' = Some (BStr s)"
  from assms obtain vs where vs: "validate TaskCreate body = Some vs"
    and task: "task = \<lparr>m_values = vs, m_fields_set = (\<lambda>k. body k \<noteq> None)\<rparr>"
    by (auto simp: parse_body_def split: option.splits)
  from s task have "vs ''due_date'' = Some (BStr s)"
    by (simp add: created_def dict_def)
  from validated_value [OF vs this] obtain f where
    f: "(''due_date'', f) \<in> set TaskCreate" "validate_field body f ''due_date'' = Some (BStr s)"
    by blast
  from f(1) have "f = Optional TDatetime BNull"
    by (simp add: TaskCreate_def TaskBase_def)
  with f(2) validate_field_datetime show False by blast
qed

lemma due_date_filter_misses_created:
  assumes "parse_body TaskCreate body = Inr task" and "s \<noteq> []"
  shows "\<not> matches (Fields (tasks_query current_user category priority completed (Some s)))
             (task_as_doc (created task current_user now new_oid))"
proof
  assume "matches (Fields (tasks_query current_user category priority completed (Some s)))
            (task_as_doc (created task current_user now new_oid))"
  then have "list_all (field_matches (task_as_doc (created task current_user now new_oid)))
               (if_truthy ''due_date'' (Some s))"
    unfolding tasks_query_def matches.simps list_all_append by blast
  with assms(2)
  have "t_fields (created task current_user now new_oid) ''due_date'' = Some (BStr s)"
    by (simp add: matches_if_truthy del: field_matches.simps)
  with created_due_date_not_string [OF assms(1)] show False
    by blast
qed

end
